theory Spec2Isabelle
  imports Main "HOL-Library.Word" "HOL-Library.Sublist"
begin

unbundle bit_operations_syntax

section \<open>32-bit floats\<close>

text \<open>
  The C++ type \<^verbatim>\<open>float\<close> is modelled by its IEEE-754 binary32 bit pattern: bit 31 is
  the sign, bits 30..23 the biased exponent, bits 22..0 the fraction. The pattern
  without the sign bit is called the magnitude pattern; on magnitude patterns up to
  \<open>0x7F800000\<close> (infinity) the order of the patterns is the order of the values.
  Arithmetic rounds every single operation to nearest, ties to even (the default
  rounding mode, no fused multiply-add, no excess precision). Every operation that
  yields a NaN yields the quiet NaN \<open>0x7FC00000\<close>; the sign and payload of a NaN
  differ between processors and nothing below depends on them.
\<close>

type_synonym f32 = "32 word"

definition f_sign :: "f32 \<Rightarrow> bool" where
  "f_sign w = bit w 31"

definition f_mag :: "f32 \<Rightarrow> nat" where
  "f_mag w = unat (w AND 0x7FFFFFFF)"

definition mk_f32 :: "bool \<Rightarrow> nat \<Rightarrow> f32" where
  "mk_f32 s p = (if s then 0x80000000 else 0) OR word_of_nat p"

definition is_nan :: "f32 \<Rightarrow> bool" where
  "is_nan w = (0x7F800000 < f_mag w)"

definition is_inf :: "f32 \<Rightarrow> bool" where
  "is_inf w = (f_mag w = 0x7F800000)"

definition is_zero :: "f32 \<Rightarrow> bool" where
  "is_zero w = (f_mag w = 0)"

definition is_finite :: "f32 \<Rightarrow> bool" where
  "is_finite w = (f_mag w < 0x7F800000)"

definition qnan :: f32 where
  "qnan = 0x7FC00000"

text \<open>
  The value of a magnitude pattern, in units of \<open>2\<^sup>-\<^sup>1\<^sup>4\<^sup>9\<close> (the smallest subnormal):
  every finite float is a whole number of these units. The pattern of infinity gets
  \<open>2\<^sup>1\<^sup>2\<^sup>8\<close>, the value one step above the largest finite float.
\<close>

definition mag_int :: "nat \<Rightarrow> nat" where
  "mag_int p = (let e = p div 2 ^ 23; m = p mod 2 ^ 23
                in if e = 0 then m else (2 ^ 23 + m) * 2 ^ (e - 1))"

definition f_int :: "f32 \<Rightarrow> int" where
  "f_int w = (if f_sign w then - int (mag_int (f_mag w)) else int (mag_int (f_mag w)))"

text \<open>
  An exact non-negative real to be rounded: the quotient \<open>n / d\<close> or its square root.
  \<open>below c t\<close> compares the candidate \<open>c\<close>, in units of \<open>2\<^sup>-\<^sup>1\<^sup>5\<^sup>0\<close> (half units, so that
  the midpoint of two neighbouring floats is a whole number), with the target \<open>t\<close>.
\<close>

datatype exact = Ratio nat nat | Root nat nat

fun below :: "nat \<Rightarrow> exact \<Rightarrow> bool" where
  "below c (Ratio n d) = (c * d \<le> n * 2 ^ 150)"
| "below c (Root n d) = (c * c * d \<le> n * 2 ^ 300)"

fun strictly_below :: "nat \<Rightarrow> exact \<Rightarrow> bool" where
  "strictly_below c (Ratio n d) = (c * d < n * 2 ^ 150)"
| "strictly_below c (Root n d) = (c * c * d < n * 2 ^ 300)"

text \<open>
  The greatest magnitude pattern whose value is at most the target, found bit by bit
  from bit \<open>k - 1\<close> down to bit 0.
\<close>

fun floor_pat :: "exact \<Rightarrow> nat \<Rightarrow> nat \<Rightarrow> nat" where
  "floor_pat t 0 p = p"
| "floor_pat t (Suc k) p =
     floor_pat t k (if below (2 * mag_int (p + 2 ^ k)) t then p + 2 ^ k else p)"

text \<open>
  Round to nearest, ties to even. A target at or above \<open>2\<^sup>1\<^sup>2\<^sup>8\<close> overflows to infinity;
  so does one at or above the midpoint of the largest finite float and \<open>2\<^sup>1\<^sup>2\<^sup>8\<close>, since
  the pattern of the largest finite float is odd.
\<close>

definition round_nearest_even :: "exact \<Rightarrow> nat" where
  "round_nearest_even t =
     (if below (2 * mag_int 0x7F800000) t then 0x7F800000
      else let lo = floor_pat t 31 0; mid = mag_int lo + mag_int (lo + 1)
           in if strictly_below mid t then lo + 1
              else if below mid t then (if even lo then lo else lo + 1)
              else lo)"

definition fneg :: "f32 \<Rightarrow> f32" where
  "fneg w = w XOR 0x80000000"

definition fabs :: "f32 \<Rightarrow> f32" where
  \<comment> \<open>\<^verbatim>\<open>std::abs(float)\<close>\<close>
  "fabs w = w AND 0x7FFFFFFF"

definition fadd :: "f32 \<Rightarrow> f32 \<Rightarrow> f32" where
  "fadd a b =
     (if is_nan a \<or> is_nan b then qnan
      else if is_inf a then (if is_inf b \<and> f_sign a \<noteq> f_sign b then qnan else a)
      else if is_inf b then b
      else let s = f_int a + f_int b
           in if s = 0 then mk_f32 (f_sign a \<and> f_sign b) 0
              else mk_f32 (s < 0) (round_nearest_even (Ratio (nat \<bar>s\<bar>) (2 ^ 149))))"

definition fsub :: "f32 \<Rightarrow> f32 \<Rightarrow> f32" where
  "fsub a b = fadd a (fneg b)"

definition fmul :: "f32 \<Rightarrow> f32 \<Rightarrow> f32" where
  "fmul a b =
     (if is_nan a \<or> is_nan b then qnan
      else if (is_inf a \<and> is_zero b) \<or> (is_zero a \<and> is_inf b) then qnan
      else if is_inf a \<or> is_inf b then mk_f32 (f_sign a \<noteq> f_sign b) 0x7F800000
      else mk_f32 (f_sign a \<noteq> f_sign b)
             (round_nearest_even
                (Ratio (mag_int (f_mag a) * mag_int (f_mag b)) (2 ^ 298))))"

definition fdiv :: "f32 \<Rightarrow> f32 \<Rightarrow> f32" where
  "fdiv a b =
     (if is_nan a \<or> is_nan b then qnan
      else if is_inf a then
        (if is_inf b then qnan else mk_f32 (f_sign a \<noteq> f_sign b) 0x7F800000)
      else if is_inf b then mk_f32 (f_sign a \<noteq> f_sign b) 0
      else if is_zero b then
        (if is_zero a then qnan else mk_f32 (f_sign a \<noteq> f_sign b) 0x7F800000)
      else mk_f32 (f_sign a \<noteq> f_sign b)
             (round_nearest_even (Ratio (mag_int (f_mag a)) (mag_int (f_mag b)))))"

definition fsqrt :: "f32 \<Rightarrow> f32" where
  \<comment> \<open>\<^verbatim>\<open>std::sqrt(float)\<close>\<close>
  "fsqrt a =
     (if is_nan a then qnan
      else if is_zero a then a
      else if f_sign a then qnan
      else if is_inf a then a
      else mk_f32 False (round_nearest_even (Root (mag_int (f_mag a)) (2 ^ 149))))"

definition flt :: "f32 \<Rightarrow> f32 \<Rightarrow> bool" where
  \<comment> \<open>\<^verbatim>\<open>a < b\<close>: false when either side is a NaN; the two zeros are equal\<close>
  "flt a b = (\<not> is_nan a \<and> \<not> is_nan b \<and> f_int a < f_int b)"

definition fgt :: "f32 \<Rightarrow> f32 \<Rightarrow> bool" where
  "fgt a b = flt b a"

definition f_1e_20 :: f32 where
  \<comment> \<open>the literal \<^verbatim>\<open>1e-20f\<close>: the float nearest to \<open>10\<^sup>-\<^sup>2\<^sup>0\<close>\<close>
  "f_1e_20 = 0x1E3CE508"

section \<open>Mesh.h: the data model and the face normal\<close>

record Vec3 =
  vx :: f32
  vy :: f32
  vz :: f32

text \<open>
  \<^verbatim>\<open>std::array<Vec3,3> v\<close> has exactly three elements; they are the fields
  \<open>v0\<close>, \<open>v1\<close>, \<open>v2\<close> (\<^verbatim>\<open>v[0]\<close>, \<^verbatim>\<open>v[1]\<close>, \<^verbatim>\<open>v[2]\<close>).
\<close>

record Triangle =
  normal :: Vec3
  v0 :: Vec3
  v1 :: Vec3
  v2 :: Vec3

record Mesh =
  name :: string
  tris :: "Triangle list"

definition zero_Vec3 :: Vec3 where
  "zero_Vec3 = \<lparr>vx = 0, vy = 0, vz = 0\<rparr>"

definition zero_Triangle :: Triangle where
  \<comment> \<open>\<^verbatim>\<open>Triangle{}\<close>\<close>
  "zero_Triangle = \<lparr>normal = zero_Vec3, v0 = zero_Vec3, v1 = zero_Vec3, v2 = zero_Vec3\<rparr>"

definition sub :: "Vec3 \<Rightarrow> Vec3 \<Rightarrow> Vec3" where
  "sub a b = \<lparr>vx = fsub (vx a) (vx b), vy = fsub (vy a) (vy b), vz = fsub (vz a) (vz b)\<rparr>"

definition cross :: "Vec3 \<Rightarrow> Vec3 \<Rightarrow> Vec3" where
  "cross a b =
     \<lparr>vx = fsub (fmul (vy a) (vz b)) (fmul (vz a) (vy b)),
      vy = fsub (fmul (vz a) (vx b)) (fmul (vx a) (vz b)),
      vz = fsub (fmul (vx a) (vy b)) (fmul (vy a) (vx b))\<rparr>"

definition vec_len :: "Vec3 \<Rightarrow> f32" where
  \<comment> \<open>\<^verbatim>\<open>std::sqrt(n.x*n.x + n.y*n.y + n.z*n.z)\<close>\<close>
  "vec_len n =
     fsqrt (fadd (fadd (fmul (vx n) (vx n)) (fmul (vy n) (vy n))) (fmul (vz n) (vz n)))"

definition face_normal :: "Triangle \<Rightarrow> Vec3" where
  "face_normal t =
     (let n = cross (sub (v1 t) (v0 t)) (sub (v2 t) (v0 t));
          len = vec_len n
      in if fgt len 0
         then \<lparr>vx = fdiv (vx n) len, vy = fdiv (vy n) len, vz = fdiv (vz n) len\<rparr>
         else n)"

definition abs_sum :: "Vec3 \<Rightarrow> f32" where
  \<comment> \<open>\<^verbatim>\<open>std::abs(n.x) + std::abs(n.y) + std::abs(n.z)\<close>\<close>
  "abs_sum n = fadd (fadd (fabs (vx n)) (fabs (vy n))) (fabs (vz n))"

definition normal_missing :: "Vec3 \<Rightarrow> bool" where
  \<comment> \<open>the test \<^verbatim>\<open>... < 1e-20f\<close> that the parsers and the serializers share\<close>
  "normal_missing n = flt (abs_sum n) f_1e_20"

section \<open>Characters and tokens (Ascii.cpp)\<close>

text \<open>
  A \<^verbatim>\<open>char\<close> is a byte. \<^verbatim>\<open>std::isspace\<close> and \<^verbatim>\<open>std::tolower\<close> are those of the "C"
  locale: the space and the bytes 9 to 13 are white space, and only \<open>A\<close>..\<open>Z\<close> change.
\<close>

definition c_isspace :: "char \<Rightarrow> bool" where
  "c_isspace c = (let n = (of_char c :: nat) in n = 32 \<or> (9 \<le> n \<and> n \<le> 13))"

definition c_tolower :: "char \<Rightarrow> char" where
  "c_tolower c = (let n = (of_char c :: nat) in if 65 \<le> n \<and> n \<le> 90 then char_of (n + 32) else c)"

definition trim_sv :: "string \<Rightarrow> string" where
  "trim_sv sv = rev (dropWhile c_isspace (rev (dropWhile c_isspace sv)))"

function tokens_from :: "string \<Rightarrow> string list" where
  "tokens_from sv =
     (if sv = [] then []
      else let sv1 = dropWhile c_isspace sv
           in if sv1 = [] then []
              else takeWhile (\<lambda>c. \<not> c_isspace c) sv1
                   # tokens_from (dropWhile (\<lambda>c. \<not> c_isspace c) sv1))"
  by pat_completeness auto
termination
proof (relation "measure length")
  show "wf (measure length)" by simp
next
  fix sv :: string and sv1 :: string
  assume ne: "sv \<noteq> []" and eq: "sv1 = dropWhile c_isspace sv" and ne1: "sv1 \<noteq> []"
  from eq ne1 have "\<not> c_isspace (hd sv1)"
    by (metis hd_dropWhile)
  with ne1 have "length (dropWhile (\<lambda>c. \<not> c_isspace c) sv1) < length sv1"
    by (cases sv1) (auto simp: le_imp_less_Suc length_dropWhile_le)
  moreover have "length sv1 \<le> length sv"
    using eq by (simp add: length_dropWhile_le)
  ultimately show "(dropWhile (\<lambda>c. \<not> c_isspace c) sv1, sv) \<in> measure length"
    by simp
qed

declare tokens_from.simps [simp del]

definition tokenize_ws :: "string \<Rightarrow> string list" where
  "tokenize_ws sv = tokens_from (trim_sv sv)"

definition eq_ci :: "string \<Rightarrow> string \<Rightarrow> bool" where
  \<comment> \<open>same size, and every character of \<open>a\<close> lower-cased is the character of \<open>b_lc\<close>\<close>
  "eq_ci a b_lc = list_all2 (\<lambda>x y. c_tolower x = y) a b_lc"

fun join_sp :: "string list \<Rightarrow> string" where
  "join_sp [] = []"
| "join_sp [t] = t"
| "join_sp (t # ts) = t @ '' '' @ join_sp ts"

definition join_name :: "string list \<Rightarrow> nat \<Rightarrow> string" where
  "join_name toks start = join_sp (drop start toks)"

fun show_nat :: "nat \<Rightarrow> string" where
  \<comment> \<open>\<^verbatim>\<open>std::format("{}", n)\<close> for an unsigned integer\<close>
  "show_nat n = (if n < 10 then [char_of (48 + n)]
                 else show_nat (n div 10) @ [char_of (48 + n mod 10)])"

declare show_nat.simps [simp del]

section \<open>\<^verbatim>\<open>std::from_chars\<close> for float\<close>

text \<open>
  The library function \<^verbatim>\<open>std::from_chars(first, last, value)\<close> with the default
  \<^verbatim>\<open>chars_format::general\<close>, as the C++ standard describes it: an optional minus sign
  (no plus sign), then \<^verbatim>\<open>inf\<close>, \<^verbatim>\<open>infinity\<close>, \<^verbatim>\<open>nan\<close> or \<^verbatim>\<open>nan(...)\<close> in any case, or
  decimal digits with an optional point and an optional exponent. The parser accepts a
  token only when the whole token was consumed and no error was reported, so the model
  returns \<open>Some\<close> exactly then. A non-zero decimal that rounds to zero or to infinity is
  reported as out of range.
\<close>

definition is_digit :: "char \<Rightarrow> bool" where
  "is_digit c = (let n = (of_char c :: nat) in 48 \<le> n \<and> n \<le> 57)"

definition digits_val :: "string \<Rightarrow> nat" where
  "digits_val ds = foldl (\<lambda>a c. 10 * a + ((of_char c :: nat) - 48)) 0 ds"

definition is_nchar :: "char \<Rightarrow> bool" where
  "is_nchar c = (let n = (of_char c :: nat)
                 in (48 \<le> n \<and> n \<le> 57) \<or> (65 \<le> n \<and> n \<le> 90) \<or> (97 \<le> n \<and> n \<le> 122) \<or> n = 95)"

definition nan_with_payload :: "string \<Rightarrow> bool" where
  "nan_with_payload lr =
     (4 < length lr \<and> take 4 lr = ''nan('' \<and> last lr = CHR '')''
      \<and> list_all is_nchar (butlast (drop 4 lr)))"

definition exponent_part :: "string \<Rightarrow> int option" where
  "exponent_part r =
     (if r = [] then Some 0
      else if hd r = CHR ''e'' \<or> hd r = CHR ''E'' then
        (let r3 = tl r;
             eneg = (r3 \<noteq> [] \<and> hd r3 = CHR ''-'');
             r4 = (if r3 \<noteq> [] \<and> (hd r3 = CHR ''-'' \<or> hd r3 = CHR ''+'') then tl r3 else r3)
         in if r4 \<noteq> [] \<and> list_all is_digit r4
            then Some (if eneg then - int (digits_val r4) else int (digits_val r4))
            else None)
      else None)"

definition decimal_to_f32 :: "bool \<Rightarrow> nat \<Rightarrow> int \<Rightarrow> f32 option" where
  \<comment> \<open>the float nearest to \<open>m * 10\<^sup>e\<close>, with the sign \<open>neg\<close>\<close>
  "decimal_to_f32 neg m e =
     (if m = 0 then Some (mk_f32 neg 0)
      else let p = round_nearest_even
                     (if 0 \<le> e then Ratio (m * 10 ^ nat e) 1 else Ratio m (10 ^ nat (- e)))
           in if p = 0 \<or> p = 0x7F800000 then None else Some (mk_f32 neg p))"

definition from_chars_float :: "string \<Rightarrow> f32 option" where
  "from_chars_float sv =
     (let neg = (sv \<noteq> [] \<and> hd sv = CHR ''-'');
          r = (if neg then tl sv else sv);
          lr = map c_tolower r
      in if lr = ''inf'' \<or> lr = ''infinity'' then Some (mk_f32 neg 0x7F800000)
         else if lr = ''nan'' \<or> nan_with_payload lr then Some (mk_f32 neg 0x7FC00000)
         else let ip = takeWhile is_digit r;
                  r1 = dropWhile is_digit r;
                  point = (r1 \<noteq> [] \<and> hd r1 = CHR ''.'');
                  fp = (if point then takeWhile is_digit (tl r1) else []);
                  r2 = (if point then dropWhile is_digit (tl r1) else r1)
              in if ip = [] \<and> fp = [] then None
                 else (case exponent_part r2 of
                         None \<Rightarrow> None
                       | Some e \<Rightarrow> decimal_to_f32 neg (digits_val (ip @ fp)) (e - int (length fp))))"

section \<open>The ASCII parser (Ascii.cpp)\<close>

abbreviation apos :: char where
  "apos \<equiv> CHR 0x27"

definition readf :: "string \<Rightarrow> string + f32" where
  "readf sv =
     (case from_chars_float sv of
        Some v \<Rightarrow> Inr v
      | None \<Rightarrow> Inl (''Failed to parse number: '' @ [apos] @ sv @ [apos]))"

definition three_floats_from :: "string list \<Rightarrow> nat \<Rightarrow> string + Vec3" where
  "three_floats_from toks start =
     (if length toks < start + 3 then Inl ''Expected three floats''
      else case readf (toks ! (start + 0)) of
        Inl e \<Rightarrow> Inl e
      | Inr fx \<Rightarrow>
         (case readf (toks ! (start + 1)) of
            Inl e \<Rightarrow> Inl e
          | Inr fy \<Rightarrow>
             (case readf (toks ! (start + 2)) of
                Inl e \<Rightarrow> Inl e
              | Inr fz \<Rightarrow> Inr \<lparr>vx = fx, vy = fy, vz = fz\<rparr>)))"

datatype Phase = idle | have_facet | in_loop | have_v1 | have_v2

record pstate =
  mesh :: Mesh
  in_solid :: bool
  current :: Triangle
  phase :: Phase
  vertex_count :: nat
  line_no :: nat

definition init_pstate :: pstate where
  "init_pstate =
     \<lparr>mesh = \<lparr>name = [], tris = []\<rparr>, in_solid = False, current = zero_Triangle,
      phase = idle, vertex_count = 0, line_no = 0\<rparr>"

text \<open>
  What one pass through the body of the line loop does: \<^verbatim>\<open>continue\<close> with a new state,
  \<^verbatim>\<open>break\<close> out of the loop, or return an error from the function.
\<close>

datatype step = Continue pstate | Break pstate | Return_error string

definition line_error :: "nat \<Rightarrow> string \<Rightarrow> string" where
  \<comment> \<open>\<^verbatim>\<open>std::format("Line {}: {}", line_no, msg)\<close>\<close>
  "line_error n msg = ''Line '' @ show_nat n @ '': '' @ msg"

definition unexpected_content :: "string \<Rightarrow> string" where
  "unexpected_content line_trim = ''unexpected content: '' @ [apos] @ line_trim @ [apos]"

definition complete_normal :: "bool \<Rightarrow> Triangle \<Rightarrow> Triangle" where
  \<comment> \<open>the normal completion that both parsers apply to a triangle before storing it\<close>
  "complete_normal compute_missing_normals t =
     (if compute_missing_normals then
        (if normal_missing (normal t) then t\<lparr>normal := face_normal t\<rparr> else t)
      else t)"

definition set_name :: "string list \<Rightarrow> pstate \<Rightarrow> pstate" where
  \<comment> \<open>\<^verbatim>\<open>mesh.name = (toks.size() > 1) ? join_name(toks, 1) : std::string{}\<close>\<close>
  "set_name toks s =
     s\<lparr>mesh := (mesh s)\<lparr>name := (if 1 < length toks then join_name toks 1 else [])\<rparr>\<rparr>"

definition parse_line :: "bool \<Rightarrow> pstate \<Rightarrow> string \<Rightarrow> step" where
  "parse_line compute_missing_normals s0 line =
     (let s = s0\<lparr>line_no := line_no s0 + 1\<rparr>;
          n = line_no s;
          line_trim = trim_sv line
      in if line_trim = [] then Continue s
      else let toks = tokenize_ws line_trim
      in if toks = [] then Continue s
      else if \<not> in_solid s then
        (if \<not> eq_ci (hd toks) ''solid''
         then Return_error (line_error n (''expected '' @ [apos] @ ''solid'' @ [apos]))
         else Continue ((set_name toks s)\<lparr>in_solid := True\<rparr>))
      else if eq_ci (hd toks) ''endsolid'' then Break (s\<lparr>in_solid := False\<rparr>)
      else if eq_ci (hd toks) ''facet'' then
        (if length toks < 2 \<or> \<not> eq_ci (toks ! 1) ''normal''
         then Return_error (line_error n ([apos] @ ''facet'' @ [apos] @ '' where not expected''))
         else if phase s \<noteq> idle
         then Return_error (line_error n ([apos] @ ''facet'' @ [apos] @ '' where not expected''))
         else case three_floats_from toks 2 of
                Inl e \<Rightarrow> Return_error (line_error n e)
              | Inr arr \<Rightarrow>
                  Continue (s\<lparr>current := (current s)\<lparr>normal := arr\<rparr>, phase := have_facet\<rparr>))
      else if eq_ci (hd toks) ''outer'' then
        (if length toks < 2 \<or> \<not> eq_ci (toks ! 1) ''loop''
         then Return_error (line_error n (unexpected_content line_trim))
         else if phase s \<noteq> have_facet
         then Return_error (line_error n ([apos] @ ''outer loop'' @ [apos] @ '' without facet''))
         else Continue (s\<lparr>phase := in_loop, vertex_count := 0\<rparr>))
      else if eq_ci (hd toks) ''vertex'' then
        (if phase s \<noteq> in_loop \<and> phase s \<noteq> have_v1 \<and> phase s \<noteq> have_v2
         then Return_error (line_error n ([apos] @ ''vertex'' @ [apos] @ '' outside of loop''))
         else case three_floats_from toks 1 of
                Inl e \<Rightarrow> Return_error (line_error n e)
              | Inr arr \<Rightarrow>
                  if vertex_count s = 0
                  then Continue (s\<lparr>current := (current s)\<lparr>v0 := arr\<rparr>, phase := have_v1,
                                   vertex_count := vertex_count s + 1\<rparr>)
                  else if vertex_count s = 1
                  then Continue (s\<lparr>current := (current s)\<lparr>v1 := arr\<rparr>, phase := have_v2,
                                   vertex_count := vertex_count s + 1\<rparr>)
                  else if vertex_count s = 2
                  then Continue (s\<lparr>current := (current s)\<lparr>v2 := arr\<rparr>,
                                   vertex_count := vertex_count s + 1\<rparr>)
                  else Return_error (line_error n ''too many vertices in loop''))
      else if eq_ci (hd toks) ''endloop'' then
        (if vertex_count s \<noteq> 3
         then Return_error (line_error n ([apos] @ ''endloop'' @ [apos] @ '' before three vertices''))
         else Continue s)
      else if eq_ci (hd toks) ''endfacet'' then
        (if vertex_count s \<noteq> 3 \<or> phase s \<noteq> have_v2
         then Return_error
                (line_error n ([apos] @ ''endfacet'' @ [apos] @ '' without complete triangle''))
         else Continue
                (s\<lparr>mesh := (mesh s)\<lparr>tris := tris (mesh s)
                                         @ [complete_normal compute_missing_normals (current s)]\<rparr>,
                   current := zero_Triangle, phase := idle\<rparr>))
      else if eq_ci (hd toks) ''solid'' then Continue (set_name toks s)
      else Return_error (line_error n (unexpected_content line_trim)))"

text \<open>
  The loop over the lines. Its result is \<open>Continue s\<close> when the lines ran out in state
  \<open>s\<close>, \<open>Break s\<close> when a line broke out of the loop, and the error otherwise.
\<close>

fun line_loop :: "bool \<Rightarrow> pstate \<Rightarrow> string list \<Rightarrow> step" where
  "line_loop compute_missing_normals s [] = Continue s"
| "line_loop compute_missing_normals s (l # ls) =
     (case parse_line compute_missing_normals s l of
        Continue s' \<Rightarrow> line_loop compute_missing_normals s' ls
      | Break s' \<Rightarrow> Break s'
      | Return_error e \<Rightarrow> Return_error e)"

text \<open>
  \<^verbatim>\<open>text | std::views::split('\n')\<close>: an empty text has no line at all; any other text
  has one line more than it has newline characters, the last line possibly empty.
\<close>

fun split_nl :: "string \<Rightarrow> string \<Rightarrow> string list" where
  \<comment> \<open>\<open>cur\<close> holds the characters of the line being read, last one first\<close>
  "split_nl cur [] = [rev cur]"
| "split_nl cur (c # cs) =
     (if c = CHR 0x0A then rev cur # split_nl [] cs else split_nl (c # cur) cs)"

definition split_lines :: "string \<Rightarrow> string list" where
  "split_lines text = (if text = [] then [] else split_nl [] text)"

definition after_loop :: "pstate \<Rightarrow> string + Mesh" where
  \<comment> \<open>the check after the loop, and the return of the mesh\<close>
  "after_loop s =
     (if in_solid s \<and> phase s \<noteq> idle
      then Inl ''Unexpected EOF: unterminated facet/loop''
      else Inr (mesh s))"

definition ASCII_parse :: "string \<Rightarrow> bool \<Rightarrow> string + Mesh" where
  "ASCII_parse text compute_missing_normals =
     (case line_loop compute_missing_normals init_pstate (split_lines text) of
        Return_error e \<Rightarrow> Inl e
      | Continue s \<Rightarrow> after_loop s
      | Break s \<Rightarrow> after_loop s)"

section \<open>The ASCII serializer (Ascii.cpp)\<close>

text \<open>
  \<^verbatim>\<open>std::vformat("{:.Nf}", x)\<close> for a float: fixed notation with \<open>N\<close> digits after the
  point (and no point when \<open>N = 0\<close>), the exact binary value rounded to nearest, ties to
  even; a set sign bit prints as a minus sign, also on a zero; infinities and NaNs print
  as \<^verbatim>\<open>inf\<close> and \<^verbatim>\<open>nan\<close>.
\<close>

definition round_half_even :: "nat \<Rightarrow> nat \<Rightarrow> nat" where
  \<comment> \<open>the whole number nearest to \<open>n / d\<close>\<close>
  "round_half_even n d =
     (let q = n div d; r = n mod d
      in if d < 2 * r \<or> (2 * r = d \<and> odd q) then q + 1 else q)"

definition format_fixed :: "nat \<Rightarrow> f32 \<Rightarrow> string" where
  "format_fixed p w =
     (if f_sign w then ''-'' else []) @
     (if is_nan w then ''nan''
      else if is_inf w then ''inf''
      else let r = round_half_even (mag_int (f_mag w) * 10 ^ p) (2 ^ 149);
               frac = show_nat (r mod 10 ^ p)
           in show_nat (r div 10 ^ p) @
              (if p = 0 then [] else ''.'' @ replicate (p - length frac) CHR ''0'' @ frac))"

definition fmt3 :: "nat \<Rightarrow> Vec3 \<Rightarrow> string" where
  "fmt3 p v = format_fixed p (vx v) @ '' '' @ format_fixed p (vy v) @ '' '' @ format_fixed p (vz v)"

definition emitted_normal :: "Triangle \<Rightarrow> Vec3" where
  \<comment> \<open>\<^verbatim>\<open>Vec3 n = t.normal; if (... < 1e-20f) n = face_normal(t);\<close>\<close>
  "emitted_normal t = (if normal_missing (normal t) then face_normal t else normal t)"

definition facet_text :: "nat \<Rightarrow> Triangle \<Rightarrow> string" where
  "facet_text p t =
     ''  facet normal '' @ fmt3 p (emitted_normal t) @ [CHR 0x0A] @
     ''    outer loop'' @ [CHR 0x0A] @
     ''      vertex '' @ fmt3 p (v0 t) @ [CHR 0x0A] @
     ''      vertex '' @ fmt3 p (v1 t) @ [CHR 0x0A] @
     ''      vertex '' @ fmt3 p (v2 t) @ [CHR 0x0A] @
     ''    endloop'' @ [CHR 0x0A] @
     ''  endfacet'' @ [CHR 0x0A]"

text \<open>
  The result is \<open>None\<close> when \<^verbatim>\<open>std::vformat\<close> throws: a negative \<^verbatim>\<open>float_precision\<close>
  gives a format string such as \<^verbatim>\<open>{:.-1f}\<close>, which is refused when the first triangle is
  formatted.
\<close>

definition ASCII_serialize :: "Mesh \<Rightarrow> int \<Rightarrow> string option" where
  "ASCII_serialize m float_precision =
     (if tris m \<noteq> [] \<and> float_precision < 0 then None
      else Some (foldl (\<lambda>out t. out @ facet_text (nat float_precision) t)
                   (''solid '' @ name m @ [CHR 0x0A]) (tris m)
                 @ ''endsolid '' @ name m @ [CHR 0x0A]))"

section \<open>Streams\<close>

text \<open>
  A seekable in-memory input stream, as \<^verbatim>\<open>std::istringstream\<close> behaves: the characters,
  the read position, and the state bits \<^verbatim>\<open>eofbit\<close> and \<^verbatim>\<open>failbit\<close>.
\<close>

record istream =
  is_buf :: string
  is_pos :: nat
  is_eof :: bool
  is_fail :: bool

definition is_good :: "istream \<Rightarrow> bool" where
  "is_good s = (\<not> is_eof s \<and> \<not> is_fail s)"

definition is_read :: "istream \<Rightarrow> nat \<Rightarrow> istream \<times> string" where
  \<comment> \<open>\<^verbatim>\<open>is.read(p, n)\<close>: the new state and the characters read (\<^verbatim>\<open>gcount\<close> is their number)\<close>
  "is_read s n =
     (if \<not> is_good s then (s\<lparr>is_fail := True\<rparr>, [])
      else let got = take n (drop (is_pos s) (is_buf s))
           in (s\<lparr>is_pos := is_pos s + length got,
                 is_eof := length got < n, is_fail := length got < n\<rparr>, got))"

definition is_tellg :: "istream \<Rightarrow> nat option" where
  \<comment> \<open>\<open>None\<close> is \<^verbatim>\<open>pos_type(-1)\<close>\<close>
  "is_tellg s = (if is_fail s then None else Some (is_pos s))"

definition is_clear :: "istream \<Rightarrow> istream" where
  "is_clear s = s\<lparr>is_eof := False, is_fail := False\<rparr>"

definition is_seekg :: "istream \<Rightarrow> nat \<Rightarrow> istream" where
  "is_seekg s p =
     (let s1 = s\<lparr>is_eof := False\<rparr>
      in if is_fail s1 then s1
         else if p \<le> length (is_buf s1) then s1\<lparr>is_pos := p\<rparr>
         else s1\<lparr>is_fail := True\<rparr>)"

definition is_drain :: "istream \<Rightarrow> istream \<times> string" where
  \<comment> \<open>\<^verbatim>\<open>oss << is.rdbuf()\<close>: everything from the read position on; the state bits stay\<close>
  "is_drain s = (s\<lparr>is_pos := max (is_pos s) (length (is_buf s))\<rparr>, drop (is_pos s) (is_buf s))"

text \<open>
  An output stream that takes \<open>os_room\<close> more characters and fails on the write that
  does not fit. What the sink holds after a failed write is not modelled.
\<close>

record ostream =
  os_data :: string
  os_room :: nat
  os_ok :: bool

definition os_write :: "ostream \<Rightarrow> string \<Rightarrow> ostream" where
  "os_write s bs =
     (if \<not> os_ok s then s
      else if length bs \<le> os_room s
      then s\<lparr>os_data := os_data s @ bs, os_room := os_room s - length bs\<rparr>
      else s\<lparr>os_ok := False\<rparr>)"

definition ASCII_parse_stream :: "istream \<Rightarrow> bool \<Rightarrow> string + Mesh" where
  "ASCII_parse_stream s compute_missing_normals =
     (let (s', text) = is_drain s
      in if \<not> is_good s' \<and> \<not> is_eof s' then Inl ''I/O error while reading stream''
         else ASCII_parse text compute_missing_normals)"

section \<open>The binary codec (Binary.h, Binary.cpp)\<close>

text \<open>
  \<open>le_bytes k n\<close> are the \<open>k\<close> low bytes of \<open>n\<close>, least significant first, and
  \<open>le_value\<close> reads such bytes back. A value of a \<open>k\<close>-byte type lies in memory as
  \<open>object_rep big k n\<close>, where \<open>big\<close> says that the host is big-endian
  (\<^verbatim>\<open>std::endian::native == std::endian::big\<close>); \<^verbatim>\<open>memcpy\<close> copies this representation.
\<close>

definition le_bytes :: "nat \<Rightarrow> nat \<Rightarrow> string" where
  "le_bytes k n = map (\<lambda>i. char_of (n div 256 ^ i)) [0..<k]"

definition le_value :: "string \<Rightarrow> nat" where
  "le_value bs = foldr (\<lambda>c acc. of_char c + 256 * acc) bs 0"

definition object_rep :: "bool \<Rightarrow> nat \<Rightarrow> nat \<Rightarrow> string" where
  "object_rep big k n = (if big then rev (le_bytes k n) else le_bytes k n)"

definition object_val :: "bool \<Rightarrow> string \<Rightarrow> nat" where
  "object_val big bs = le_value (if big then rev bs else bs)"

definition load_le :: "bool \<Rightarrow> string \<Rightarrow> 'a::len word" where
  "load_le big bytes =
     (let v = object_val big bytes
      in word_of_nat (if big then object_val big (rev (object_rep big (length bytes) v)) else v))"

definition store_le :: "bool \<Rightarrow> 'a::len word \<Rightarrow> string" where
  "store_le big val =
     (let k = LENGTH('a) div 8;
          v = (if big then object_val big (rev (object_rep big k (unat val))) else unat val)
      in object_rep big k v)"

function read_exact_from :: "istream \<Rightarrow> nat \<Rightarrow> string \<Rightarrow> istream \<times> string option" where
  "read_exact_from s n got =
     (if length got < n then
        (let r = is_read s (n - length got)
         in if is_fail (fst r) then (fst r, None)
            else read_exact_from (fst r) n (got @ snd r))
      else (s, Some got))"
  by pat_completeness auto
termination
proof (relation "measure (\<lambda>(s, n, got). n - length got)")
  show "wf (measure (\<lambda>(s, n, got). n - length got))" by simp
next
  fix s :: istream and n :: nat and got :: string and r :: "istream \<times> string"
  assume lt: "length got < n" and r: "r = is_read s (n - length got)"
    and ok: "\<not> is_fail (fst r)"
  from r ok have "length (snd r) = n - length got"
    by (auto simp: is_read_def Let_def split: if_splits)
  with lt show "((fst r, n, got @ snd r), (s, n, got)) \<in> measure (\<lambda>(s, n, got). n - length got)"
    by simp
qed

declare read_exact_from.simps [simp del]

definition read_exact :: "istream \<Rightarrow> nat \<Rightarrow> istream \<times> string option" where
  \<comment> \<open>\<open>None\<close> is the result \<^verbatim>\<open>false\<close>; otherwise the buffer, filled\<close>
  "read_exact s n = read_exact_from s n []"

definition rec_float :: "bool \<Rightarrow> string \<Rightarrow> nat \<Rightarrow> f32" where
  \<comment> \<open>the lambda \<^verbatim>\<open>f(idx)\<close>: the float at bytes \<open>4 * idx\<close> to \<open>4 * idx + 3\<close> of the record\<close>
  "rec_float big rec idx = load_le big (take 4 (drop (idx * 4) rec))"

definition decode_triangle :: "bool \<Rightarrow> string \<Rightarrow> Triangle" where
  "decode_triangle big rec =
     \<lparr>normal = \<lparr>vx = rec_float big rec 0, vy = rec_float big rec 1, vz = rec_float big rec 2\<rparr>,
      v0 = \<lparr>vx = rec_float big rec 3, vy = rec_float big rec 4, vz = rec_float big rec 5\<rparr>,
      v1 = \<lparr>vx = rec_float big rec 6, vy = rec_float big rec 7, vz = rec_float big rec 8\<rparr>,
      v2 = \<lparr>vx = rec_float big rec 9, vy = rec_float big rec 10, vz = rec_float big rec 11\<rparr>\<rparr>"

fun read_tris :: "bool \<Rightarrow> bool \<Rightarrow> nat \<Rightarrow> istream \<Rightarrow> Triangle list \<Rightarrow> string + Triangle list" where
  \<comment> \<open>the record loop, with the number of records still to read\<close>
  "read_tris big compute_missing_normals 0 s acc = Inr acc"
| "read_tris big compute_missing_normals (Suc k) s acc =
     (case read_exact s 50 of
        (s', None) \<Rightarrow> Inl ''Binary STL: unexpected EOF in triangle data''
      | (s', Some rec) \<Rightarrow>
          read_tris big compute_missing_normals k s'
            (acc @ [complete_normal compute_missing_normals (decode_triangle big rec)]))"

definition header_name :: "string \<Rightarrow> string" where
  \<comment> \<open>the header up to its last character that is not NUL, space, tab, CR or LF\<close>
  "header_name hdr =
     rev (dropWhile (\<lambda>c. c \<in> set [CHR 0x00, CHR 0x20, CHR 0x09, CHR 0x0D, CHR 0x0A]) (rev hdr))"

definition Binary_parse :: "bool \<Rightarrow> istream \<Rightarrow> bool \<Rightarrow> string + Mesh" where
  "Binary_parse big s compute_missing_normals =
     (case read_exact s 80 of
        (s1, None) \<Rightarrow> Inl ''Binary STL: failed to read 80-byte header''
      | (s1, Some header) \<Rightarrow>
         (case read_exact s1 4 of
            (s2, None) \<Rightarrow> Inl ''Binary STL: failed to read triangle count''
          | (s2, Some countBuf) \<Rightarrow>
             (let triCount = (load_le big countBuf :: 32 word)
              in case read_tris big compute_missing_normals (unat triCount) s2 [] of
                   Inl e \<Rightarrow> Inl e
                 | Inr ts \<Rightarrow> Inr \<lparr>name = header_name header, tris = ts\<rparr>)))"

definition encode_triangle :: "bool \<Rightarrow> Triangle \<Rightarrow> 16 word \<Rightarrow> string" where
  \<comment> \<open>the 50 bytes of a record: twelve floats and the attribute byte count\<close>
  "encode_triangle big t attribute_byte_count =
     concat (map (store_le big)
       [vx (normal t), vy (normal t), vz (normal t),
        vx (v0 t), vy (v0 t), vz (v0 t),
        vx (v1 t), vy (v1 t), vz (v1 t),
        vx (v2 t), vy (v2 t), vz (v2 t)])
     @ store_le big attribute_byte_count"

fun write_tris :: "bool \<Rightarrow> ostream \<Rightarrow> Triangle list \<Rightarrow> 16 word \<Rightarrow> ostream \<times> bool" where
  "write_tris big os [] attr = (os, os_ok os)"
| "write_tris big os (tIn # ts) attr =
     (let t = (if normal_missing (normal tIn) then tIn\<lparr>normal := face_normal tIn\<rparr> else tIn);
          os' = os_write os (encode_triangle big t attr)
      in if \<not> os_ok os' then (os', False) else write_tris big os' ts attr)"

definition Binary_serialize :: "bool \<Rightarrow> ostream \<Rightarrow> Mesh \<Rightarrow> string \<Rightarrow> 16 word \<Rightarrow> ostream \<times> bool" where
  "Binary_serialize big os m header attribute_byte_count =
     (let copyN = min 80 (length header);
          hdr = take copyN header @ replicate (80 - copyN) (CHR 0x00);
          os1 = os_write os hdr
      in if \<not> os_ok os1 then (os1, False)
         else let cnt = store_le big (word_of_nat (length (tris m)) :: 32 word);
                  os2 = os_write os1 cnt
              in if \<not> os_ok os2 then (os2, False)
                 else write_tris big os2 (tris m) attribute_byte_count)"

section \<open>The autodetecting parser (Parse.cpp)\<close>

definition STL_parse :: "bool \<Rightarrow> istream \<Rightarrow> bool \<Rightarrow> string + Mesh" where
  "STL_parse big s compute_missing_normals =
     (let pos = (case is_tellg s of None \<Rightarrow> 0 | Some p \<Rightarrow> p);
          (s1, probe) = is_read s 6;
          readOk = length probe;
          s2 = is_clear s1;
          s3 = is_seekg s2 pos
      in if readOk = 6 \<and> probe = ''solid ''
         then ASCII_parse_stream s3 compute_missing_normals
         else Binary_parse big s3 compute_missing_normals)"

section \<open>Notions used in the statements\<close>

definition avail :: "istream \<Rightarrow> string" where
  \<comment> \<open>the characters of the stream from the read position on\<close>
  "avail s = drop (is_pos s) (is_buf s)"

definition istream_of :: "string \<Rightarrow> istream" where
  \<comment> \<open>a fresh input stream over the given characters\<close>
  "istream_of bs = \<lparr>is_buf = bs, is_pos = 0, is_eof = False, is_fail = False\<rparr>"

definition record_at :: "string \<Rightarrow> nat \<Rightarrow> string" where
  \<comment> \<open>the \<open>i\<close>-th 50-byte record of the triangle data \<open>bs\<close>\<close>
  "record_at bs i = take 50 (drop (50 * i) bs)"

definition count_field :: "bool \<Rightarrow> string \<Rightarrow> nat" where
  \<comment> \<open>the triangle count that bytes 80 to 83 of a binary file declare\<close>
  "count_field big bs = unat (load_le big (take 4 (drop 80 bs)) :: 32 word)"

definition first_token_is :: "string \<Rightarrow> string \<Rightarrow> bool" where
  \<comment> \<open>the line has a first token, and it is the keyword \<open>kw\<close> in any case\<close>
  "first_token_is kw line =
     (let toks = tokenize_ws (trim_sv line) in toks \<noteq> [] \<and> eq_ci (hd toks) kw)"

definition vertex_lines_since_outer :: "string list \<Rightarrow> nat" where
  \<comment> \<open>the number of \<open>vertex\<close> lines after the last \<open>outer\<close> line of \<open>ls\<close>, whether or not
      an \<open>endloop\<close> or \<open>endfacet\<close> line has closed that loop since; all \<open>vertex\<close> lines
      of \<open>ls\<close> when it has no \<open>outer\<close> line\<close>
  "vertex_lines_since_outer ls =
     length (filter (first_token_is ''vertex'')
               (takeWhile (\<lambda>l. \<not> first_token_is ''outer'' l) (rev ls)))"

definition truncated_file :: string where
  \<comment> \<open>a header of 80 \<open>H\<close>, the count 2, and one record of 50 zero bytes\<close>
  "truncated_file =
     replicate 80 CHR ''H'' @ [CHR 0x02, CHR 0x00, CHR 0x00, CHR 0x00] @ replicate 50 (CHR 0x00)"

definition header80 :: "string \<Rightarrow> string" where
  \<comment> \<open>the header text cut or padded with NUL to 80 bytes, as the serializer writes it\<close>
  "header80 header = take 80 header @ replicate (80 - length header) (CHR 0x00)"

definition sink_with_room :: "nat \<Rightarrow> ostream" where
  \<comment> \<open>an empty output stream in good state that takes \<open>n\<close> characters\<close>
  "sink_with_room n = \<lparr>os_data = [], os_room = n, os_ok = True\<rparr>"

definition f_one :: f32 where
  \<comment> \<open>\<^verbatim>\<open>1.0f\<close>\<close>
  "f_one = 0x3F800000"

definition xy_triangle :: "Vec3 \<Rightarrow> Triangle" where
  \<comment> \<open>the triangle (0,0,0), (1,0,0), (0,1,0) of the repository's tests, with normal \<open>n\<close>\<close>
  "xy_triangle n =
     \<lparr>normal = n,
      v0 = \<lparr>vx = 0, vy = 0, vz = 0\<rparr>,
      v1 = \<lparr>vx = f_one, vy = 0, vz = 0\<rparr>,
      v2 = \<lparr>vx = 0, vy = f_one, vz = 0\<rparr>\<rparr>"

definition tiny_normal :: Vec3 where
  \<comment> \<open>the normal \<open>(2\<^sup>-\<^sup>1\<^sup>2\<^sup>6, 0, 0)\<close>: finite and not zero\<close>
  "tiny_normal = \<lparr>vx = 0x00800000, vy = 0, vz = 0\<rparr>"

definition z_normal :: Vec3 where
  \<comment> \<open>the normal \<open>(0, 0, 1)\<close>\<close>
  "z_normal = \<lparr>vx = 0, vy = 0, vz = f_one\<rparr>"

definition keyword_of :: "string \<Rightarrow> string" where
  \<comment> \<open>the first token of the line, in lower case\<close>
  "keyword_of line = map c_tolower (hd (tokenize_ws (trim_sv line)))"

definition zero_normal_file :: string where
  \<comment> \<open>a binary file with an empty header and one record: the test triangle with the
      normal \<open>(0, 0, 0)\<close>\<close>
  "zero_normal_file =
     header80 [] @ store_le False (1 :: 32 word)
     @ encode_triangle False (xy_triangle zero_Vec3) 0"

definition next_state :: "step \<Rightarrow> pstate" where
  \<comment> \<open>the state that a step or a run of the line loop leaves\<close>
  "next_state r = (case r of Continue s \<Rightarrow> s | Break s \<Rightarrow> s | Return_error e \<Rightarrow> init_pstate)"

definition in_solid_state :: pstate where
  \<comment> \<open>the state of the parser after the line \<open>solid\<close> as line 1\<close>
  "in_solid_state = init_pstate\<lparr>in_solid := True, line_no := 1\<rparr>"

definition test_loop_lines :: "string list" where
  \<comment> \<open>the loop of the test triangle\<close>
  "test_loop_lines =
     [''outer loop'', ''vertex 0 0 0'', ''vertex 1 0 0'', ''vertex 0 1 0'', ''endloop'']"

definition state_after_facet :: "bool \<Rightarrow> pstate" where
  "state_after_facet cmn = next_state (parse_line cmn in_solid_state ''facet normal 0 0 0'')"

definition state_after_loop :: "bool \<Rightarrow> pstate" where
  "state_after_loop cmn = next_state (line_loop cmn (state_after_facet cmn) test_loop_lines)"

definition state_after_endfacet :: "bool \<Rightarrow> pstate" where
  "state_after_endfacet cmn = next_state (parse_line cmn (state_after_loop cmn) ''endfacet'')"

definition closed_facet_lines :: "string list" where
  \<comment> \<open>a solid line and one complete facet, closed by its \<open>endfacet\<close> line\<close>
  "closed_facet_lines =
     [''solid s'', ''facet normal 0 0 1'', ''outer loop'', ''vertex 0 0 0'', ''vertex 1 0 0'',
      ''vertex 0 1 0'', ''endloop'', ''endfacet'']"

definition closed_facet_state :: pstate where
  \<comment> \<open>the parser after the 8 lines \<open>closed_facet_lines\<close>: one triangle stored, no facet and
      no loop open, the counter still at 3\<close>
  "closed_facet_state =
     \<lparr>mesh = \<lparr>name = ''s'', tris = [xy_triangle z_normal]\<rparr>, in_solid = True,
      current = zero_Triangle, phase = idle, vertex_count = 3, line_no = 8\<rparr>"

definition next_facet_state :: pstate where
  \<comment> \<open>the parser after \<open>closed_facet_lines\<close> and a further line \<open>facet normal 0 0 1\<close>: the
      next facet is open, its loop is not\<close>
  "next_facet_state =
     \<lparr>mesh = \<lparr>name = ''s'', tris = [xy_triangle z_normal]\<rparr>, in_solid = True,
      current = zero_Triangle\<lparr>normal := z_normal\<rparr>, phase = have_facet, vertex_count = 3,
      line_no = 9\<rparr>"

section \<open>Evaluation of the float model on numerals\<close>

lemma floor_pat_numeral:
  "floor_pat t (numeral k) p =
     floor_pat t (pred_numeral k)
       (if below (2 * mag_int (p + 2 ^ pred_numeral k)) t then p + 2 ^ pred_numeral k else p)"
  by (simp add: numeral_eq_Suc)

lemmas float_eval =
  f_sign_def f_mag_def mk_f32_def is_nan_def is_inf_def is_zero_def is_finite_def qnan_def
  mag_int_def f_int_def round_nearest_even_def floor_pat_numeral Let_def
  fneg_def fabs_def fadd_def fsub_def fmul_def fdiv_def fsqrt_def flt_def fgt_def f_1e_20_def

lemma f_1e_20_nearest: "f_1e_20 = mk_f32 False (round_nearest_even (Ratio 1 (10 ^ 20)))"
  by (simp add: float_eval)


text \<open>
  Known values: \<open>0.1f\<close>; two ties, each rounded to the even pattern; the largest finite
  float and the overflow just above the midpoint to \<open>2\<^sup>1\<^sup>2\<^sup>8\<close>; the underflow to zero
  and the smallest subnormal; the square root of 2.
\<close>

lemma round_nearest_even_examples:
  "round_nearest_even (Ratio 1 10) = 0x3DCCCCCD"
  "round_nearest_even (Ratio 16777217 1) = 0x4B800000"
  "round_nearest_even (Ratio 16777219 1) = 0x4B800002"
  "round_nearest_even (Ratio (34028235 * 10 ^ 31) 1) = 0x7F7FFFFF"
  "round_nearest_even (Ratio (34028236 * 10 ^ 31) 1) = 0x7F800000"
  "round_nearest_even (Ratio 7 (10 ^ 46)) = 0"
  "round_nearest_even (Ratio 1 (10 ^ 45)) = 1"
  "round_nearest_even (Root 2 1) = 0x3FB504F3"
  by (simp_all add: round_nearest_even_def mag_int_def floor_pat_numeral Let_def)

lemma float_ground_sub: "fsub f_one 0 = f_one" "fsub 0 0 = 0"
  by (simp_all add: f_one_def float_eval)

lemma float_ground_mul:
  "fmul 0 0 = 0" "fmul 0 f_one = 0" "fmul f_one 0 = 0" "fmul f_one f_one = f_one"
  by (simp_all add: f_one_def float_eval)

lemma float_ground_add:
  "fadd 0 0 = 0" "fadd 0 f_one = f_one" "fadd 0x00800000 0 = 0x00800000"
  by (simp_all add: f_one_def float_eval)

lemma float_ground_sqrt: "fsqrt f_one = f_one" "fsqrt 0 = 0"
  by (simp_all add: f_one_def float_eval)

lemma float_ground_div: "fdiv 0 f_one = 0" "fdiv f_one f_one = f_one"
  by (simp_all add: f_one_def float_eval)

lemma float_ground_abs: "fabs 0 = 0" "fabs f_one = f_one" "fabs 0x00800000 = 0x00800000"
  by (simp_all add: f_one_def float_eval)

lemma float_ground_cmp:
  "fgt f_one 0" "\<not> fgt 0 0" "flt 0 f_1e_20" "flt 0x00800000 f_1e_20" "\<not> flt f_one f_1e_20"
  by (simp_all add: f_one_def float_eval)

lemmas float_ground =
  float_ground_sub float_ground_mul float_ground_add float_ground_sqrt float_ground_div
  float_ground_abs float_ground_cmp

lemmas geometry_eval =
  face_normal_def cross_def sub_def vec_len_def abs_sum_def normal_missing_def
  xy_triangle_def tiny_normal_def z_normal_def zero_Vec3_def zero_Triangle_def Let_def

lemma face_normal_xy_triangle: "face_normal (xy_triangle n) = z_normal"
  by (simp add: geometry_eval float_ground)

lemma face_normal_zero_Triangle: "face_normal zero_Triangle = zero_Vec3"
  by (simp add: geometry_eval float_ground)

lemma normal_missing_zero: "normal_missing zero_Vec3"
  by (simp add: geometry_eval float_ground)

lemma normal_missing_tiny: "normal_missing tiny_normal"
  by (simp add: geometry_eval float_ground)

lemma normal_missing_z: "\<not> normal_missing z_normal"
  by (simp add: geometry_eval float_ground)

lemma from_chars_ground:
  "from_chars_float ''0'' = Some 0" "from_chars_float ''1'' = Some f_one"
  by (simp_all add: from_chars_float_def c_tolower_def is_digit_def digits_val_def
        exponent_part_def decimal_to_f32_def nan_with_payload_def f_one_def float_eval)

lemma char_of_digit:
  "char_of (48::nat) = CHR ''0''" "char_of (49::nat) = CHR ''1''" "char_of (50::nat) = CHR ''2''"
  "char_of (51::nat) = CHR ''3''" "char_of (52::nat) = CHR ''4''" "char_of (53::nat) = CHR ''5''"
  "char_of (54::nat) = CHR ''6''" "char_of (55::nat) = CHR ''7''" "char_of (56::nat) = CHR ''8''"
  "char_of (57::nat) = CHR ''9''"
  by code_simp+

lemma show_nat_digit: "n < 10 \<Longrightarrow> show_nat n = [char_of (48 + n)]"
  by (simp add: show_nat.simps)

lemmas ascii_eval =
  ASCII_parse_def split_lines_def parse_line_def trim_sv_def tokenize_ws_def
  tokens_from.simps eq_ci_def c_isspace_def c_tolower_def set_name_def join_name_def
  init_pstate_def after_loop_def Let_def line_error_def unexpected_content_def
  show_nat.simps char_of_digit three_floats_from_def readf_def from_chars_ground complete_normal_def

lemmas stream_eval =
  istream_of_def avail_def is_good_def is_read_def is_tellg_def is_clear_def is_seekg_def
  is_drain_def read_exact_def read_exact_from.simps Let_def

lemmas token_eval =
  first_token_is_def tokenize_ws_def trim_sv_def tokens_from.simps eq_ci_def
  c_isspace_def c_tolower_def Let_def


section \<open>Reading from a stream\<close>


lemma read_exact_zero: "read_exact s 0 = (s, Some [])"
  by (simp add: read_exact_def read_exact_from.simps)

lemma read_exact_enough:
  assumes "is_good s" and "0 < n" and "n \<le> length (avail s)"
  shows "read_exact s n = (s\<lparr>is_pos := is_pos s + n\<rparr>, Some (take n (avail s)))"
proof -
  have g: "\<not> is_eof s" "\<not> is_fail s" using assms(1) by (simp_all add: is_good_def)
  have len: "length (take n (drop (is_pos s) (is_buf s))) = n"
    using assms(3) by (simp add: avail_def)
  have r: "is_read s n = (s\<lparr>is_pos := is_pos s + n\<rparr>, take n (avail s))"
    using assms(1) len g by (simp add: is_read_def Let_def avail_def)
  show ?thesis
    unfolding read_exact_def
    apply (subst read_exact_from.simps)
    apply (simp add: assms(2) r g Let_def)
    apply (subst read_exact_from.simps)
    using assms(3) apply simp
    done
qed

lemma read_exact_short:
  assumes "is_good s" and "length (avail s) < n"
  shows "snd (read_exact s n) = None"
proof -
  have "is_fail (fst (is_read s n))"
    using assms by (simp add: is_read_def Let_def avail_def)
  then show ?thesis
    unfolding read_exact_def
    apply (subst read_exact_from.simps)
    using assms(2) apply (simp add: Let_def)
    done
qed


lemma good_seek: "is_good s \<Longrightarrow> is_good (s\<lparr>is_pos := p\<rparr>)"
  by (simp add: is_good_def)

lemma avail_advance: "avail (s\<lparr>is_pos := is_pos s + n\<rparr>) = drop n (avail s)"
  by (simp add: avail_def add.commute)

lemma avail_advance': "avail (s\<lparr>is_pos := n + is_pos s\<rparr>) = drop n (avail s)"
  by (simp add: avail_def)

lemma read_tris_short:
  "is_good s \<Longrightarrow> length (avail s) < 50 * k \<Longrightarrow>
   read_tris big cmn k s acc = Inl ''Binary STL: unexpected EOF in triangle data''"
proof (induction k arbitrary: s acc)
  case 0
  then show ?case by simp
next
  case (Suc k)
  show ?case
  proof (cases "length (avail s) < 50")
    case True
    with Suc.prems(1) have "snd (read_exact s 50) = None"
      by (rule read_exact_short)
    then show ?thesis by (simp add: split_beta)
  next
    case False
    then have re: "read_exact s 50 = (s\<lparr>is_pos := is_pos s + 50\<rparr>, Some (take 50 (avail s)))"
      using Suc.prems(1) by (simp add: read_exact_enough)
    have "length (avail (s\<lparr>is_pos := is_pos s + 50\<rparr>)) < 50 * k"
      using Suc.prems(2) False by (simp add: avail_advance)
    with Suc.IH [OF good_seek [OF Suc.prems(1)]] re show ?thesis by simp
  qed
qed

lemma read_tris_enough:
  "is_good s \<Longrightarrow> 50 * k \<le> length (avail s) \<Longrightarrow>
   read_tris big cmn k s acc =
     Inr (acc @ map (\<lambda>i. complete_normal cmn (decode_triangle big (record_at (avail s) i))) [0..<k])"
proof (induction k arbitrary: s acc)
  case 0
  then show ?case by simp
next
  case (Suc k)
  let ?s' = "s\<lparr>is_pos := is_pos s + 50\<rparr>"
  have re: "read_exact s 50 = (?s', Some (take 50 (avail s)))"
    using Suc.prems by (simp add: read_exact_enough)
  have len: "50 * k \<le> length (avail ?s')"
    using Suc.prems(2) by (simp add: avail_advance)
  have shift: "record_at (avail ?s') i = record_at (avail s) (Suc i)" for i
    by (simp add: record_at_def avail_advance add.commute)
  have split: "map f [0..<Suc k] = f 0 # map (\<lambda>i. f (Suc i)) [0..<k]" for f :: "nat \<Rightarrow> Triangle"
    by (simp add: upt_conv_Cons map_Suc_upt [symmetric] del: upt_Suc)
  have r0: "record_at (avail s) 0 = take 50 (avail s)"
    by (simp add: record_at_def)
  show ?case
    using Suc.IH [OF good_seek [OF Suc.prems(1)] len]
    by (simp add: re shift split r0 del: upt_Suc)
qed

lemma Binary_parse_eq:
  assumes "is_good s" and "84 \<le> length (avail s)"
  shows "Binary_parse big s cmn =
     (if 50 * count_field big (avail s) \<le> length (avail s) - 84
      then Inr \<lparr>name = header_name (take 80 (avail s)),
                tris = map (\<lambda>i. complete_normal cmn
                                  (decode_triangle big (record_at (drop 84 (avail s)) i)))
                         [0..<count_field big (avail s)]\<rparr>
      else Inl ''Binary STL: unexpected EOF in triangle data'')"
proof -
  let ?s1 = "s\<lparr>is_pos := is_pos s + 80\<rparr>"
  let ?s2 = "?s1\<lparr>is_pos := is_pos ?s1 + 4\<rparr>"
  have r1: "read_exact s 80 = (?s1, Some (take 80 (avail s)))"
    using assms by (simp add: read_exact_enough)
  have g1: "is_good ?s1" using assms(1) by (rule good_seek)
  have a1: "avail ?s1 = drop 80 (avail s)" by (rule avail_advance)
  have r2: "read_exact ?s1 4 = (?s2, Some (take 4 (drop 80 (avail s))))"
    using assms(2) g1 by (simp add: read_exact_enough a1)
  have g2: "is_good ?s2" using g1 by (rule good_seek)
  have a2: "avail ?s2 = drop 84 (avail s)"
    by (simp add: avail_def add.commute)
  show ?thesis
  proof (cases "50 * count_field big (avail s) \<le> length (avail s) - 84")
    case True
    then have "50 * count_field big (avail s) \<le> length (avail ?s2)" using a2 by simp
    from read_tris_enough [OF g2 this, of big cmn "[]"] True show ?thesis
      by (simp add: Binary_parse_def r1 r2 count_field_def avail_advance')
  next
    case False
    then have "length (avail ?s2) < 50 * count_field big (avail s)" using a2 by simp
    from read_tris_short [OF g2 this, of big cmn "[]"] False show ?thesis
      by (simp add: Binary_parse_def r1 r2 count_field_def avail_advance')
  qed
qed

section \<open>The binary records: stores and loads are inverse\<close>


lemma le_bytes_Suc: "le_bytes (Suc k) n = char_of n # le_bytes k (n div 256)"
proof -
  have "map (\<lambda>i. char_of (n div 256 ^ i)) [0..<Suc k]
          = char_of (n div 256 ^ 0) # map (\<lambda>i. char_of (n div 256 ^ Suc i)) [0..<k]"
    by (simp add: upt_conv_Cons map_Suc_upt [symmetric] del: upt_Suc)
  then show ?thesis
    by (simp add: le_bytes_def div_mult2_eq)
qed

lemma length_le_bytes [simp]: "length (le_bytes k n) = k"
  by (simp add: le_bytes_def)

lemma le_value_Cons: "le_value (c # cs) = of_char c + 256 * le_value cs"
  by (simp add: le_value_def)

lemma le_value_le_bytes: "le_value (le_bytes k n) = n mod 256 ^ k"
proof (induction k arbitrary: n)
  case 0
  then show ?case by (simp add: le_bytes_def le_value_def)
next
  case (Suc k)
  have "n mod (256 * 256 ^ k) = n mod 256 + 256 * (n div 256 mod 256 ^ k)"
    by (simp add: mod_mult2_eq)
  with Suc show ?case
    by (simp add: le_bytes_Suc le_value_Cons)
qed

lemma le_bytes_le_value: "le_bytes (length bs) (le_value bs) = bs"
proof (induction bs)
  case Nil
  then show ?case by (simp add: le_bytes_def)
next
  case (Cons c cs)
  have lt: "(of_char c :: nat) < 256" by simp
  have "char_of (of_char c + 256 * le_value cs :: nat) = c"
    by (metis char_of_char char_of_mod_256 mod_mult_self2)
  moreover have "(of_char c + 256 * le_value cs) div 256 = le_value cs"
    using lt by simp
  ultimately show ?case
    using Cons by (simp add: le_bytes_Suc le_value_Cons)
qed

lemma store_le_eq: "store_le big (w :: 'a::len word) = le_bytes (LENGTH('a) div 8) (unat w)"
proof (cases big)
  case False
  then show ?thesis by (simp add: store_le_def object_rep_def)
next
  case True
  let ?k = "LENGTH('a) div 8"
  let ?L = "le_bytes ?k (unat w)"
  have "le_bytes ?k (le_value (rev ?L)) = rev ?L"
    using le_bytes_le_value [of "rev ?L"] by simp
  with True show ?thesis
    by (simp add: store_le_def object_rep_def object_val_def)
qed

lemma load_le_eq: "load_le big bs = word_of_nat (le_value bs)"
proof (cases big)
  case False
  then show ?thesis by (simp add: load_le_def object_val_def)
next
  case True
  have "le_bytes (length bs) (le_value (rev bs)) = rev bs"
    using le_bytes_le_value [of "rev bs"] by simp
  with True show ?thesis
    by (simp add: load_le_def object_rep_def object_val_def)
qed

lemma load_store_32: "load_le big' (store_le big (w :: 32 word)) = w"
proof -
  have "unat w < 2 ^ 32" using unsigned_less [of w] by simp
  then have "unat w mod 256 ^ 4 = unat w" by simp
  then show ?thesis
    by (simp add: load_le_eq store_le_eq le_value_le_bytes)
qed

lemma length_store_32 [simp]: "length (store_le big (w :: 32 word)) = 4"
  by (simp add: store_le_eq)

lemma length_store_16 [simp]: "length (store_le big (w :: 16 word)) = 2"
  by (simp add: store_le_eq)

lemma length_encode_triangle [simp]: "length (encode_triangle big t a) = 50"
  by (simp add: encode_triangle_def)

lemma decode_encode_triangle: "decode_triangle big' (encode_triangle big t a) = t"
  by (simp add: decode_triangle_def encode_triangle_def rec_float_def load_store_32)


lemma face_normal_normal_update [simp]: "face_normal (t\<lparr>normal := n\<rparr>) = face_normal t"
  by (simp add: face_normal_def)

lemma complete_normal_idem:
  "complete_normal cmn (complete_normal True t) = complete_normal True t"
  by (simp add: complete_normal_def)

lemma complete_normal_present:
  "\<not> normal_missing (normal t) \<Longrightarrow> complete_normal cmn t = t"
  by (simp add: complete_normal_def)

lemma write_tris_data:
  "write_tris big os ts a = (os', True) \<Longrightarrow>
   os_data os' = os_data os @ concat (map (\<lambda>t. encode_triangle big (complete_normal True t) a) ts)"
proof (induction ts arbitrary: os)
  case Nil
  then show ?case by simp
next
  case (Cons t ts)
  let ?e = "encode_triangle big (complete_normal True t) a"
  let ?os1 = "os_write os ?e"
  from Cons.prems have ok: "os_ok ?os1" and rest: "write_tris big ?os1 ts a = (os', True)"
    by (auto simp: Let_def complete_normal_def split: if_splits)
  from ok have d: "os_data ?os1 = os_data os @ ?e"
    by (auto simp: os_write_def split: if_splits)
  from Cons.IH [OF rest] d show ?case by simp
qed

lemma length_header80 [simp]: "length (header80 h) = 80"
  by (simp add: header80_def)

lemma Binary_serialize_data:
  assumes "Binary_serialize big os m header a = (os', True)"
  shows "os_data os' = os_data os @ header80 header
           @ store_le big (word_of_nat (length (tris m)) :: 32 word)
           @ concat (map (\<lambda>t. encode_triangle big (complete_normal True t) a) (tris m))"
proof -
  let ?hdr = "take (min 80 (length header)) header @ replicate (80 - min 80 (length header)) (CHR 0x00)"
  let ?os1 = "os_write os ?hdr"
  let ?cnt = "store_le big (word_of_nat (length (tris m)) :: 32 word)"
  let ?os2 = "os_write ?os1 ?cnt"
  have h: "?hdr = header80 header"
    by (simp add: header80_def min_def)
  from assms have ok1: "os_ok ?os1" and ok2: "os_ok ?os2"
    and w: "write_tris big ?os2 (tris m) a = (os', True)"
    by (auto simp: Binary_serialize_def Let_def split: if_splits)
  from ok1 have d1: "os_data ?os1 = os_data os @ ?hdr"
    by (auto simp: os_write_def split: if_splits)
  from ok2 have d2: "os_data ?os2 = os_data ?os1 @ ?cnt"
    by (auto simp: os_write_def split: if_splits)
  from write_tris_data [OF w] d1 d2 h show ?thesis by simp
qed

lemma chunk_of_concat:
  "\<forall>x \<in> set xs. length x = n \<Longrightarrow> i < length xs \<Longrightarrow>
   take n (drop (n * i) (concat xs @ rest)) = xs ! i"
proof (induction xs arbitrary: i)
  case Nil
  then show ?case by simp
next
  case (Cons x xs)
  show ?case
  proof (cases i)
    case 0
    with Cons.prems show ?thesis by simp
  next
    case (Suc j)
    with Cons.prems have "take n (drop (n * j) (concat xs @ rest)) = xs ! j"
      by (intro Cons.IH) auto
    with Cons.prems Suc show ?thesis by simp
  qed
qed

lemma map_nth_upt: "map (\<lambda>i. f (xs ! i)) [0..<length xs] = map f xs"
  by (simp add: map_equality_iff)

lemma count_roundtrip:
  "n < 2 ^ 32 \<Longrightarrow> unat (load_le big' (store_le big (word_of_nat n :: 32 word)) :: 32 word) = n"
  by (simp add: load_store_32 unat_of_nat)

lemma serialize_then_parse:
  assumes ser: "Binary_serialize big os m header a = (os', True)"
    and empty: "os_data os = []" and small: "length (tris m) < 2 ^ 32"
  shows "Binary_parse big' (istream_of (os_data os')) cmn
           = Inr \<lparr>name = header_name (header80 header),
                   tris = map (complete_normal True) (tris m)\<rparr>"
proof -
  let ?s = "istream_of (os_data os')"
  let ?cnt = "store_le big (word_of_nat (length (tris m)) :: 32 word)"
  let ?recs = "map (\<lambda>t. encode_triangle big (complete_normal True t) a) (tris m)"
  have data: "os_data os' = header80 header @ ?cnt @ concat ?recs"
    using Binary_serialize_data [OF ser] empty by simp
  have av: "avail ?s = header80 header @ ?cnt @ concat ?recs"
    by (simp add: avail_def istream_of_def data)
  have good: "is_good ?s" by (simp add: is_good_def istream_of_def)
  have lc: "length (concat ?recs) = 50 * length (tris m)"
    by (induction "tris m") (simp_all add: length_concat comp_def sum_list_triv)
  have len: "length (avail ?s) = 84 + 50 * length (tris m)"
    by (simp add: av lc)
  have cf: "count_field big' (avail ?s) = length (tris m)"
    using small by (simp add: count_field_def av count_roundtrip)
  have hd: "take 80 (avail ?s) = header80 header" by (simp add: av)
  have recs: "record_at (drop 84 (avail ?s)) i = ?recs ! i" if "i < length (tris m)" for i
    using chunk_of_concat [of ?recs 50 i "[]"] that
    by (simp add: record_at_def av)
  have "map (\<lambda>i. complete_normal cmn (decode_triangle big' (record_at (drop 84 (avail ?s)) i)))
            [0..<length (tris m)]
        = map (\<lambda>i. complete_normal True (tris m ! i)) [0..<length (tris m)]"
    by (rule map_cong [OF refl]) (simp add: recs decode_encode_triangle complete_normal_idem)
  also have "\<dots> = map (complete_normal True) (tris m)"
    by (rule map_nth_upt)
  finally have ts: "map (\<lambda>i. complete_normal cmn
                               (decode_triangle big' (record_at (drop 84 (avail ?s)) i)))
                      [0..<length (tris m)] = map (complete_normal True) (tris m)" .
  have "84 \<le> length (avail ?s)" using len by simp
  from Binary_parse_eq [OF good this, of big' cmn] show ?thesis
    by (simp add: cf len hd ts)
qed

lemma write_tris_room:
  "os_ok os \<Longrightarrow> 50 * length ts \<le> os_room os \<Longrightarrow> snd (write_tris big os ts a) = True"
proof (induction ts arbitrary: os)
  case Nil
  then show ?case by simp
next
  case (Cons t ts)
  then show ?case
    by (auto simp: Let_def os_write_def)
qed

lemma Binary_serialize_room:
  assumes "os_ok os" and "84 + 50 * length (tris m) \<le> os_room os"
  shows "snd (Binary_serialize big os m header a) = True"
proof -
  let ?hdr = "take (min 80 (length header)) header @ replicate (80 - min 80 (length header)) (CHR 0x00)"
  let ?os1 = "os_write os ?hdr"
  let ?cnt = "store_le big (word_of_nat (length (tris m)) :: 32 word)"
  let ?os2 = "os_write ?os1 ?cnt"
  have l: "length ?hdr = 80" by (simp add: min_def)
  have ok1: "os_ok ?os1" and r1: "os_room ?os1 = os_room os - 80"
    using assms l by (simp_all add: os_write_def)
  have ok2: "os_ok ?os2" and r2: "os_room ?os2 = os_room os - 84"
    using assms ok1 r1 by (simp_all add: os_write_def)
  have "50 * length (tris m) \<le> os_room ?os2"
    using assms(2) r2 by simp
  from write_tris_room [OF ok2 this] ok1 ok2 show ?thesis
    by (simp add: Binary_serialize_def Let_def)
qed

section \<open>One line of the ASCII parser\<close>


lemma eq_ci_iff: "eq_ci a b = (map c_tolower a = b)"
  unfolding eq_ci_def
  by (induction a arbitrary: b) (auto simp: list_all2_Cons1)

lemma eq_ci_keyword: "eq_ci (hd (tokenize_ws (trim_sv l))) kw = (keyword_of l = kw)"
  by (simp add: eq_ci_iff keyword_of_def)

lemma tokenize_ws_Nil: "tokenize_ws [] = []"
  by (simp add: tokenize_ws_def trim_sv_def tokens_from.simps)

lemma blank_no_tokens: "trim_sv line = [] \<Longrightarrow> tokenize_ws (trim_sv line) = []"
  by (simp add: tokenize_ws_Nil)

lemma first_token_is_iff:
  "first_token_is kw line = (tokenize_ws (trim_sv line) \<noteq> [] \<and> keyword_of line = kw)"
  by (simp add: first_token_is_def eq_ci_keyword Let_def)

lemma parse_line_blank:
  "tokenize_ws (trim_sv line) = [] \<Longrightarrow>
   parse_line cmn s line = Continue (s\<lparr>line_no := line_no s + 1\<rparr>)"
  by (simp add: parse_line_def Let_def)

lemmas parse_line_unfold =
  parse_line_def Let_def first_token_is_iff eq_ci_keyword set_name_def tokenize_ws_Nil

lemma parse_line_tris:
  "parse_line cmn s l = Continue s' \<Longrightarrow>
   tris (mesh s') = tris (mesh s)
      @ (if first_token_is ''endfacet'' l then [complete_normal cmn (current s)] else [])"
  by (auto simp: parse_line_unfold split: if_splits sum.splits)

lemma parse_line_vertex_count:
  "parse_line cmn s l = Continue s' \<Longrightarrow>
   vertex_count s' = (if first_token_is ''outer'' l then 0
                      else if first_token_is ''vertex'' l then vertex_count s + 1
                      else vertex_count s)"
  by (auto simp: parse_line_unfold split: if_splits sum.splits)

lemma parse_line_line_no:
  "parse_line cmn s l = Continue s' \<Longrightarrow> line_no s' = line_no s + 1"
  by (auto simp: parse_line_unfold split: if_splits sum.splits)

lemma parse_line_in_solid:
  "parse_line cmn s l = Continue s' \<Longrightarrow> in_solid s' = (in_solid s \<or> first_token_is ''solid'' l)"
  by (auto simp: parse_line_unfold split: if_splits sum.splits)

lemma parse_line_outside:
  "parse_line cmn s l = Continue s' \<Longrightarrow> \<not> in_solid s' \<Longrightarrow> vertex_count s' = vertex_count s"
  by (auto simp: parse_line_unfold split: if_splits sum.splits)

lemma parse_line_inside_facet:
  "parse_line cmn s l = Continue s' \<Longrightarrow> in_solid s \<Longrightarrow> phase s \<noteq> idle \<Longrightarrow>
   \<not> first_token_is ''endfacet'' l \<Longrightarrow>
   in_solid s' \<and> phase s' \<noteq> idle \<and> normal (current s') = normal (current s)
   \<and> tris (mesh s') = tris (mesh s)"
  by (auto simp: parse_line_unfold split: if_splits sum.splits)

lemma parse_line_facet:
  "parse_line cmn s l = Continue s' \<Longrightarrow> first_token_is ''facet'' l \<Longrightarrow>
   in_solid s \<and> in_solid s' \<and> phase s' = have_facet \<and> tris (mesh s') = tris (mesh s)
   \<and> three_floats_from (tokenize_ws (trim_sv l)) 2 = Inr (normal (current s'))"
  by (auto simp: parse_line_unfold split: if_splits sum.splits)

lemma parse_line_endsolid:
  "in_solid s \<Longrightarrow> first_token_is ''endsolid'' l \<Longrightarrow>
   parse_line cmn s l = Break (s\<lparr>line_no := line_no s + 1, in_solid := False\<rparr>)"
  by (auto simp: parse_line_unfold split: if_splits sum.splits)

lemma parse_line_endloop:
  "in_solid s \<Longrightarrow> first_token_is ''endloop'' l \<Longrightarrow>
   parse_line cmn s l =
     (if vertex_count s \<noteq> 3
      then Return_error (line_error (line_no s + 1)
                           ([apos] @ ''endloop'' @ [apos] @ '' before three vertices''))
      else Continue (s\<lparr>line_no := line_no s + 1\<rparr>))"
  by (auto simp: parse_line_unfold split: if_splits sum.splits)

lemma parse_line_endfacet:
  "parse_line cmn s l = Continue s' \<Longrightarrow> first_token_is ''endfacet'' l \<Longrightarrow>
   in_solid s \<and> vertex_count s = 3 \<and> phase s = have_v2
   \<and> s' = s\<lparr>line_no := line_no s + 1,
              mesh := (mesh s)\<lparr>tris := tris (mesh s) @ [complete_normal cmn (current s)]\<rparr>,
              current := zero_Triangle, phase := idle\<rparr>"
  by (auto simp: parse_line_unfold split: if_splits sum.splits)

section \<open>The line loop of the ASCII parser\<close>


lemma parse_line_needs_solid:
  "parse_line cmn s l = Continue s' \<Longrightarrow> first_token_is kw l \<Longrightarrow> kw \<noteq> ''solid'' \<Longrightarrow> in_solid s"
  by (auto simp: parse_line_unfold split: if_splits sum.splits)

lemma line_loop_append:
  "line_loop cmn s (xs @ ys) =
     (case line_loop cmn s xs of
        Continue s' \<Rightarrow> line_loop cmn s' ys
      | Break s' \<Rightarrow> Break s'
      | Return_error e \<Rightarrow> Return_error e)"
  by (induction xs arbitrary: s) (auto split: step.splits)

lemma line_loop_snoc:
  assumes "line_loop cmn s (xs @ [l]) = Continue s''"
  obtains s' where "line_loop cmn s xs = Continue s'" and "parse_line cmn s' l = Continue s''"
  using assms by (auto simp: line_loop_append split: step.splits)

lemma loop_line_no:
  "line_loop cmn s0 xs = Continue s \<Longrightarrow> line_no s = line_no s0 + length xs"
proof (induction xs arbitrary: s0)
  case Nil
  then show ?case by simp
next
  case (Cons l ls)
  then obtain s1 where 1: "parse_line cmn s0 l = Continue s1"
    and 2: "line_loop cmn s1 ls = Continue s"
    by (auto split: step.splits)
  from Cons.IH [OF 2] parse_line_line_no [OF 1] show ?case by simp
qed

lemma loop_tris:
  "line_loop cmn s0 xs = Continue s \<Longrightarrow>
   length (tris (mesh s))
     = length (tris (mesh s0)) + length (filter (first_token_is ''endfacet'') xs)"
proof (induction xs arbitrary: s0)
  case Nil
  then show ?case by simp
next
  case (Cons l ls)
  then obtain s1 where 1: "parse_line cmn s0 l = Continue s1"
    and 2: "line_loop cmn s1 ls = Continue s"
    by (auto split: step.splits)
  from Cons.IH [OF 2] parse_line_tris [OF 1] show ?case by simp
qed

lemma loop_in_solid:
  "line_loop cmn s0 xs = Continue s \<Longrightarrow>
   in_solid s = (in_solid s0 \<or> (\<exists>l \<in> set xs. first_token_is ''solid'' l))"
proof (induction xs arbitrary: s0)
  case Nil
  then show ?case by simp
next
  case (Cons l ls)
  then obtain s1 where 1: "parse_line cmn s0 l = Continue s1"
    and 2: "line_loop cmn s1 ls = Continue s"
    by (auto split: step.splits)
  from Cons.IH [OF 2] parse_line_in_solid [OF 1] show ?case by auto
qed

lemma vertex_lines_since_outer_snoc:
  "vertex_lines_since_outer (xs @ [l]) =
     (if first_token_is ''outer'' l then 0
      else if first_token_is ''vertex'' l then vertex_lines_since_outer xs + 1
      else vertex_lines_since_outer xs)"
  by (simp add: vertex_lines_since_outer_def)

lemma loop_vertex_count:
  "line_loop cmn init_pstate xs = Continue s \<Longrightarrow> vertex_count s = vertex_lines_since_outer xs"
proof (induction xs arbitrary: s rule: rev_induct)
  case Nil
  then show ?case by (auto simp: init_pstate_def vertex_lines_since_outer_def)
next
  case (snoc l xs)
  from snoc.prems obtain s' where 1: "line_loop cmn init_pstate xs = Continue s'"
    and 2: "parse_line cmn s' l = Continue s"
    by (rule line_loop_snoc)
  from snoc.IH [OF 1] parse_line_vertex_count [OF 2] show ?case
    by (simp add: vertex_lines_since_outer_snoc)
qed

lemma loop_outside:
  "line_loop cmn init_pstate xs = Continue s \<Longrightarrow> \<not> in_solid s \<Longrightarrow> vertex_count s = 0"
proof (induction xs arbitrary: s rule: rev_induct)
  case Nil
  then show ?case by (auto simp: init_pstate_def)
next
  case (snoc l xs)
  from snoc.prems(1) obtain s' where 1: "line_loop cmn init_pstate xs = Continue s'"
    and 2: "parse_line cmn s' l = Continue s"
    by (rule line_loop_snoc)
  from parse_line_in_solid [OF 2] snoc.prems(2) have "\<not> in_solid s'" by simp
  with snoc.IH [OF 1] parse_line_outside [OF 2 snoc.prems(2)] show ?case by simp
qed

lemma loop_blank:
  "\<forall>l \<in> set ls. trim_sv l = [] \<Longrightarrow>
   line_loop cmn s ls = Continue (s\<lparr>line_no := line_no s + length ls\<rparr>)"
proof (induction ls arbitrary: s)
  case Nil
  then show ?case by simp
next
  case (Cons l ls)
  from Cons.prems have "tokenize_ws (trim_sv l) = []"
    by (simp add: tokenize_ws_Nil)
  then have "parse_line cmn s l = Continue (s\<lparr>line_no := line_no s + 1\<rparr>)"
    by (rule parse_line_blank)
  with Cons show ?case by simp
qed

lemma split_nl_chars: "l \<in> set (split_nl cur str) \<Longrightarrow> set l \<subseteq> set cur \<union> set str"
proof (induction str arbitrary: cur)
  case Nil
  then show ?case by simp
next
  case (Cons c cs)
  show ?case
  proof (cases "c = CHR 0x0A")
    case True
    with Cons.prems have "l = rev cur \<or> l \<in> set (split_nl [] cs)" by simp
    with Cons.IH [of "[]"] show ?thesis by auto
  next
    case False
    with Cons.prems have "l \<in> set (split_nl (c # cur) cs)" by simp
    from Cons.IH [OF this] show ?thesis by auto
  qed
qed

lemma trim_sv_blank:
  assumes "\<forall>c \<in> set l. c_isspace c"
  shows "trim_sv l = []"
  using assms by (auto simp: trim_sv_def dest: set_dropWhileD)

section \<open>Facet blocks and decoded records\<close>




lemma Binary_parse_Inr:
  assumes good: "is_good st" and res: "Binary_parse big st cmn = Inr m"
  shows "84 \<le> length (avail st)
    \<and> m = \<lparr>name = header_name (take 80 (avail st)),
            tris = map (\<lambda>i. complete_normal cmn
                              (decode_triangle big (record_at (drop 84 (avail st)) i)))
                     [0..<count_field big (avail st)]\<rparr>"
proof -
  have len: "84 \<le> length (avail st)"
  proof (rule ccontr)
    assume "\<not> 84 \<le> length (avail st)"
    then have short: "length (avail st) < 84" by simp
    show False
    proof (cases "length (avail st) < 80")
      case True
      from read_exact_short [OF good True] obtain s1 where "read_exact st 80 = (s1, None)"
        by (cases "read_exact st 80") auto
      with res show False by (simp add: Binary_parse_def)
    next
      case False
      let ?s1 = "st\<lparr>is_pos := is_pos st + 80\<rparr>"
      from False have r1: "read_exact st 80 = (?s1, Some (take 80 (avail st)))"
        using good by (simp add: read_exact_enough)
      have "length (avail ?s1) < 4" using short False by (simp add: avail_advance)
      from read_exact_short [OF good_seek [OF good] this]
      obtain s2 where "read_exact ?s1 4 = (s2, None)"
        by (cases "read_exact ?s1 4") auto
      with res r1 show False by (simp add: Binary_parse_def)
    qed
  qed
  from Binary_parse_eq [OF good len, of big cmn] res len show ?thesis
    by (auto split: if_splits)
qed

lemma loop_inside_facet:
  "line_loop cmn s1 mid = Continue s2 \<Longrightarrow> in_solid s1 \<Longrightarrow> phase s1 \<noteq> idle \<Longrightarrow>
   \<forall>l \<in> set mid. \<not> first_token_is ''endfacet'' l \<Longrightarrow>
   in_solid s2 \<and> phase s2 \<noteq> idle \<and> normal (current s2) = normal (current s1)
   \<and> tris (mesh s2) = tris (mesh s1)"
proof (induction mid arbitrary: s1)
  case Nil
  then show ?case by simp
next
  case (Cons l ls)
  from Cons.prems(1) obtain sa where 1: "parse_line cmn s1 l = Continue sa"
    and 2: "line_loop cmn sa ls = Continue s2"
    by (auto split: step.splits)
  from Cons.prems(4) have nl: "\<not> first_token_is ''endfacet'' l" by simp
  from parse_line_inside_facet [OF 1 Cons.prems(2,3) nl]
  have a: "in_solid sa" "phase sa \<noteq> idle" "normal (current sa) = normal (current s1)"
    "tris (mesh sa) = tris (mesh s1)"
    by simp_all
  from Cons.IH [OF 2 a(1,2)] Cons.prems(4) a(3,4) show ?case by simp
qed

lemma facet_block:
  assumes f: "parse_line cmn s lf = Continue s1" and kf: "first_token_is ''facet'' lf"
    and m: "line_loop cmn s1 mid = Continue s2"
    and nm: "\<forall>l \<in> set mid. \<not> first_token_is ''endfacet'' l"
    and e: "parse_line cmn s2 le = Continue s3" and ke: "first_token_is ''endfacet'' le"
  shows "tris (mesh s3) = tris (mesh s) @ [complete_normal cmn (current s2)]
         \<and> three_floats_from (tokenize_ws (trim_sv lf)) 2 = Inr (normal (current s2))"
proof -
  from parse_line_facet [OF f kf]
  have a: "in_solid s1" "phase s1 = have_facet" "tris (mesh s1) = tris (mesh s)"
    "three_floats_from (tokenize_ws (trim_sv lf)) 2 = Inr (normal (current s1))"
    by simp_all
  from a(2) have "phase s1 \<noteq> idle" by simp
  from loop_inside_facet [OF m a(1) this nm]
  have b: "normal (current s2) = normal (current s1)" "tris (mesh s2) = tris (mesh s1)"
    by simp_all
  from parse_line_tris [OF e] ke a b show ?thesis by simp
qed

lemma header_name_empty: "header_name (header80 []) = []"
proof -
  have "dropWhile P (replicate n x) = []" if "P x" for P :: "char \<Rightarrow> bool" and n x
    using that by (induction n) simp_all
  then show ?thesis
    by (simp add: header_name_def header80_def)
qed

lemma zero_normal_file_parse:
  "Binary_parse False (istream_of zero_normal_file) cmn
     = Inr \<lparr>name = [], tris = [complete_normal cmn (xy_triangle zero_Vec3)]\<rparr>"
proof -
  let ?st = "istream_of zero_normal_file"
  have av: "avail ?st = header80 [] @ store_le False (1 :: 32 word)
                          @ encode_triangle False (xy_triangle zero_Vec3) 0"
    by (simp add: avail_def istream_of_def zero_normal_file_def)
  have good: "is_good ?st" by (simp add: is_good_def istream_of_def)
  have len: "length (avail ?st) = 134" by (simp add: av)
  have cf: "count_field False (avail ?st) = 1"
    using count_roundtrip [of 1 False False] by (simp add: count_field_def av)
  have r: "record_at (drop 84 (avail ?st)) 0 = encode_triangle False (xy_triangle zero_Vec3) 0"
    by (simp add: record_at_def av)
  have h: "take 80 (avail ?st) = header80 []" by (simp add: av)
  have "84 \<le> length (avail ?st)" by (simp add: len)
  from Binary_parse_eq [OF good this, of False cmn] show ?thesis
    by (simp add: cf len r h decode_encode_triangle header_name_empty)
qed

section \<open>The facet block of the test triangle\<close>

lemma state_after_facet_eq:
  "state_after_facet cmn
     = \<lparr>mesh = \<lparr>name = [], tris = []\<rparr>, in_solid = True, current = zero_Triangle,
        phase = have_facet, vertex_count = 0, line_no = 2\<rparr>"
  by (simp add: state_after_facet_def next_state_def in_solid_state_def ascii_eval zero_Triangle_def
      zero_Vec3_def)

lemma state_after_loop_eq:
  "state_after_loop cmn
     = \<lparr>mesh = \<lparr>name = [], tris = []\<rparr>, in_solid = True, current = xy_triangle zero_Vec3,
        phase = have_v2, vertex_count = 3, line_no = 7\<rparr>"
  by (simp add: state_after_loop_def state_after_facet_eq test_loop_lines_def next_state_def
      ascii_eval zero_Triangle_def zero_Vec3_def xy_triangle_def)

lemma test_facet_steps:
  "parse_line cmn in_solid_state ''facet normal 0 0 0'' = Continue (state_after_facet cmn)"
  "line_loop cmn (state_after_facet cmn) test_loop_lines = Continue (state_after_loop cmn)"
  "parse_line cmn (state_after_loop cmn) ''endfacet'' = Continue (state_after_endfacet cmn)"
proof -
  show "parse_line cmn in_solid_state ''facet normal 0 0 0'' = Continue (state_after_facet cmn)"
    by (simp add: state_after_facet_def next_state_def in_solid_state_def ascii_eval)
  show "line_loop cmn (state_after_facet cmn) test_loop_lines = Continue (state_after_loop cmn)"
    by (simp add: state_after_loop_def state_after_facet_eq test_loop_lines_def next_state_def
        ascii_eval)
  show "parse_line cmn (state_after_loop cmn) ''endfacet'' = Continue (state_after_endfacet cmn)"
    by (simp add: state_after_endfacet_def state_after_loop_eq next_state_def
        parse_line_def trim_sv_def tokenize_ws_def tokens_from.simps eq_ci_def c_isspace_def
        c_tolower_def Let_def)
qed

lemma test_facet_tokens:
  "first_token_is ''facet'' ''facet normal 0 0 0''"
  "first_token_is ''endfacet'' ''endfacet''"
  "\<not> first_token_is ''endfacet'' ''outer loop''"
  "\<not> first_token_is ''endfacet'' ''vertex 0 0 0''"
  "\<not> first_token_is ''endfacet'' ''vertex 1 0 0''"
  "\<not> first_token_is ''endfacet'' ''vertex 0 1 0''"
  "\<not> first_token_is ''endfacet'' ''endloop''"
  by (simp_all add: token_eval)

lemma test_loop_no_endfacet: "\<forall>l \<in> set test_loop_lines. \<not> first_token_is ''endfacet'' l"
  by (simp add: test_loop_lines_def test_facet_tokens)

section \<open>Binary input with too few records\<close>

text \<open>
  C8. A binary input that holds its 84-byte prefix (header and count) and whose count
  field declares more triangles than there are complete 50-byte records after the prefix
  is refused: the parser returns the error \<open>Binary STL: unexpected EOF in triangle
  data\<close>. The result is an error and carries no mesh, so no triangle that was read
  before the input ran out is retained.
\<close>

theorem binary_parse_truncated:
  assumes "is_good s" and "84 \<le> length (avail s)"
    and "(length (avail s) - 84) div 50 < count_field big (avail s)"
  shows "Binary_parse big s compute_missing_normals
           = Inl ''Binary STL: unexpected EOF in triangle data''
         \<and> sublist ''unexpected EOF in triangle data''
              ''Binary STL: unexpected EOF in triangle data''"
proof -
  from assms(3) have "\<not> 50 * count_field big (avail s) \<le> length (avail s) - 84"
    by (metis div_le_mono div_mult_self1_is_m not_less zero_less_numeral)
  with Binary_parse_eq [OF assms(1,2)]
  have "Binary_parse big s compute_missing_normals
          = Inl ''Binary STL: unexpected EOF in triangle data''"
    by simp
  moreover have "sublist ''unexpected EOF in triangle data''
                   (''Binary STL: '' @ ''unexpected EOF in triangle data'' @ [])"
    by (rule sublist_appendI)
  ultimately show ?thesis by simp
qed

lemma count_field_truncated_file: "count_field False truncated_file = 2"
  by (simp add: count_field_def truncated_file_def load_le_def object_val_def le_value_def)

theorem binary_parse_truncated_witness:
  "is_good (istream_of truncated_file)
   \<and> 84 \<le> length (avail (istream_of truncated_file))
   \<and> (length (avail (istream_of truncated_file)) - 84) div 50
       < count_field False (avail (istream_of truncated_file))
   \<and> Binary_parse False (istream_of truncated_file) True
       = Inl ''Binary STL: unexpected EOF in triangle data''"
proof -
  have a: "avail (istream_of truncated_file) = truncated_file"
    by (simp add: avail_def istream_of_def)
  have g: "is_good (istream_of truncated_file)"
    by (simp add: is_good_def istream_of_def)
  have l: "length truncated_file = 134"
    by (simp add: truncated_file_def)
  have h2: "84 \<le> length (avail (istream_of truncated_file))"
    by (simp add: a l)
  have h3: "(length (avail (istream_of truncated_file)) - 84) div 50
              < count_field False (avail (istream_of truncated_file))"
    by (simp add: a l count_field_truncated_file)
  from binary_parse_truncated [OF g h2 h3, of True] g h2 h3 show ?thesis
    by simp
qed

section \<open>The autodetecting parser\<close>

text \<open>
  C2. On a stream in good state with at least 6 characters left, the autodetecting
  parser gives the result of the ASCII parser when the next 6 characters are exactly
  \<open>solid\<close> and a space, and the result of the binary parser for any other 6 characters.
  The chosen parser is run on the stream as it was before the probe: same position, same
  state bits.
\<close>

theorem STL_parse_dispatch:
  assumes "is_good s" and "6 \<le> length (avail s)"
  shows "STL_parse big s compute_missing_normals =
     (if take 6 (avail s) = ''solid '' then ASCII_parse_stream s compute_missing_normals else Binary_parse big s compute_missing_normals)"
proof -
  have g: "\<not> is_eof s" "\<not> is_fail s" using assms(1) by (simp_all add: is_good_def)
  have pos: "is_pos s + 6 \<le> length (is_buf s)" using assms(2) by (simp add: avail_def)
  have len: "length (take 6 (drop (is_pos s) (is_buf s))) = 6"
    using assms(2) by (simp add: avail_def)
  have rd: "is_read s 6 = (s\<lparr>is_pos := is_pos s + 6\<rparr>, take 6 (avail s))"
    using assms(1) g len by (simp add: is_read_def Let_def avail_def)
  have restored: "is_seekg (is_clear (s\<lparr>is_pos := is_pos s + 6\<rparr>)) (is_pos s) = s"
    using g pos by (simp add: is_seekg_def is_clear_def Let_def)
  show ?thesis
    using g len by (simp add: STL_parse_def is_tellg_def rd restored Let_def avail_def)
qed

theorem STL_parse_dispatch_witness:
  "is_good (istream_of ''solid x'') \<and> 6 \<le> length (avail (istream_of ''solid x''))
   \<and> STL_parse False (istream_of ''solid x'') True = Inr \<lparr>name = ''x'', tris = []\<rparr>
   \<and> is_good (istream_of ''SOLID x'') \<and> 6 \<le> length (avail (istream_of ''SOLID x''))
   \<and> STL_parse False (istream_of ''SOLID x'') True
       = Inl ''Binary STL: failed to read 80-byte header''"
proof -
  have g1: "is_good (istream_of ''solid x'')" and l1: "6 \<le> length (avail (istream_of ''solid x''))"
    and g2: "is_good (istream_of ''SOLID x'')" and l2: "6 \<le> length (avail (istream_of ''SOLID x''))"
    by (simp_all add: stream_eval)
  have a: "ASCII_parse_stream (istream_of ''solid x'') True = Inr \<lparr>name = ''x'', tris = []\<rparr>"
    by (simp add: ASCII_parse_stream_def stream_eval ascii_eval)
  have b: "Binary_parse False (istream_of ''SOLID x'') True
             = Inl ''Binary STL: failed to read 80-byte header''"
    by (simp add: Binary_parse_def stream_eval)
  from STL_parse_dispatch [OF g1 l1, of False True] STL_parse_dispatch [OF g2 l2, of False True]
  show ?thesis
    using g1 l1 g2 l2 a b by (simp add: avail_def istream_of_def)
qed

section \<open>Binary round trip\<close>

lemma header_name_padded: "header_name (header80 ''bin'') = ''bin''"
proof -
  have "dropWhile P (replicate n x @ ys) = dropWhile P ys" if "P x"
    for P :: "char \<Rightarrow> bool" and n x ys
    using that by (induction n) simp_all
  then show ?thesis
    by (simp add: header_name_def header80_def)
qed

lemma complete_normal_tiny: "complete_normal True (xy_triangle tiny_normal) = xy_triangle z_normal"
  using normal_missing_tiny
  by (simp add: complete_normal_def face_normal_xy_triangle) (simp add: xy_triangle_def)

lemma serialize_succeeds:
  assumes "length (tris m) = 1"
  shows "snd (Binary_serialize big (sink_with_room 134) m header a) = True"
    and "Binary_serialize big (sink_with_room 134) m header a
           = (fst (Binary_serialize big (sink_with_room 134) m header a), True)"
proof -
  show s: "snd (Binary_serialize big (sink_with_room 134) m header a) = True"
    using Binary_serialize_room [of "sink_with_room 134" m big header a] assms
    by (simp add: sink_with_room_def)
  then show "Binary_serialize big (sink_with_room 134) m header a
               = (fst (Binary_serialize big (sink_with_room 134) m header a), True)"
    by (simp add: prod_eq_iff)
qed

text \<open>
  C1, as stated, fails on the mesh with the single triangle (0,0,0), (1,0,0), (0,1,0)
  and the normal \<open>(2\<^sup>-\<^sup>1\<^sup>2\<^sup>6, 0, 0)\<close>: every component is a finite float and the normal is
  not zero, but the sum of its absolute values is below \<open>10\<^sup>-\<^sup>2\<^sup>0\<close>, so the serializer
  writes the face normal \<open>(0, 0, 1)\<close> in its place and the parser returns that.
\<close>

theorem binary_roundtrip_counterexample:
  "is_finite (vx tiny_normal) \<and> is_finite (vy tiny_normal) \<and> is_finite (vz tiny_normal)
   \<and> \<not> is_zero (vx tiny_normal)
   \<and> snd (Binary_serialize False (sink_with_room 134)
             \<lparr>name = [], tris = [xy_triangle tiny_normal]\<rparr> [] 0) = True
   \<and> Binary_parse False
         (istream_of (os_data (fst (Binary_serialize False (sink_with_room 134)
             \<lparr>name = [], tris = [xy_triangle tiny_normal]\<rparr> [] 0)))) True
       = Inr \<lparr>name = header_name (header80 []), tris = [xy_triangle z_normal]\<rparr>
   \<and> normal (xy_triangle z_normal) \<noteq> normal (xy_triangle tiny_normal)"
proof -
  let ?m = "\<lparr>name = [], tris = [xy_triangle tiny_normal]\<rparr>"
  have fin: "is_finite (vx tiny_normal) \<and> is_finite (vy tiny_normal) \<and> is_finite (vz tiny_normal)
             \<and> \<not> is_zero (vx tiny_normal)"
    by (simp add: tiny_normal_def is_finite_def is_zero_def f_mag_def)
  have ser: "Binary_serialize False (sink_with_room 134) ?m [] 0
               = (fst (Binary_serialize False (sink_with_room 134) ?m [] 0), True)"
    by (rule serialize_succeeds) simp
  have ok: "snd (Binary_serialize False (sink_with_room 134) ?m [] 0) = True"
    by (rule serialize_succeeds) simp
  have "Binary_parse False
          (istream_of (os_data (fst (Binary_serialize False (sink_with_room 134) ?m [] 0)))) True
        = Inr \<lparr>name = header_name (header80 []), tris = map (complete_normal True) (tris ?m)\<rparr>"
    by (rule serialize_then_parse [OF ser]) (simp_all add: sink_with_room_def)
  moreover have "normal (xy_triangle z_normal) \<noteq> normal (xy_triangle tiny_normal)"
    by (simp add: xy_triangle_def z_normal_def tiny_normal_def f_one_def)
  ultimately show ?thesis
    using fin ok by (simp add: complete_normal_tiny)
qed

text \<open>
  C1, amended. For every mesh with fewer than \<open>2\<^sup>3\<^sup>2\<close> triangles, any header text and any
  attribute byte count: when the binary serializer has written the mesh to an empty
  stream and reports success, the binary parser (on a host of either endianness, with
  either setting of \<open>compute_missing_normals\<close>) returns the triangles of the mesh in the
  same order, every vertex bit for bit, with every normal whose absolute values sum to
  less than \<open>10\<^sup>-\<^sup>2\<^sup>0\<close> replaced by the computed face normal. Hence a mesh in which no normal
  has such a sum is recovered exactly.
\<close>

theorem binary_roundtrip:
  assumes "Binary_serialize big os m header attribute_byte_count = (os', True)"
    and "os_data os = []" and "length (tris m) < 2 ^ 32"
  shows "Binary_parse big' (istream_of (os_data os')) compute_missing_normals
           = Inr \<lparr>name = header_name (header80 header),
                   tris = map (\<lambda>t. if normal_missing (normal t)
                                     then t\<lparr>normal := face_normal t\<rparr> else t) (tris m)\<rparr>
         \<and> ((\<forall>t \<in> set (tris m). \<not> normal_missing (normal t)) \<longrightarrow>
              Binary_parse big' (istream_of (os_data os')) compute_missing_normals
                = Inr \<lparr>name = header_name (header80 header), tris = tris m\<rparr>)"
proof -
  have c: "complete_normal True = (\<lambda>t. if normal_missing (normal t)
                                          then t\<lparr>normal := face_normal t\<rparr> else t)"
    by (rule ext) (simp add: complete_normal_def)
  have p: "Binary_parse big' (istream_of (os_data os')) compute_missing_normals
             = Inr \<lparr>name = header_name (header80 header),
                     tris = map (complete_normal True) (tris m)\<rparr>"
    using assms by (rule serialize_then_parse)
  have "map (complete_normal True) (tris m) = tris m"
    if "\<forall>t \<in> set (tris m). \<not> normal_missing (normal t)"
    using that by (simp add: map_idI complete_normal_present)
  with p show ?thesis
    by (simp add: c [symmetric])
qed

theorem binary_roundtrip_witness:
  "Binary_serialize True (sink_with_room 134) \<lparr>name = ''w'', tris = [xy_triangle z_normal]\<rparr> ''bin'' 2
     = (fst (Binary_serialize True (sink_with_room 134)
               \<lparr>name = ''w'', tris = [xy_triangle z_normal]\<rparr> ''bin'' 2), True)
   \<and> os_data (sink_with_room 134) = []
   \<and> length (tris \<lparr>name = ''w'', tris = [xy_triangle z_normal]\<rparr>) < 2 ^ 32
   \<and> Binary_parse False
        (istream_of (os_data (fst (Binary_serialize True (sink_with_room 134)
               \<lparr>name = ''w'', tris = [xy_triangle z_normal]\<rparr> ''bin'' 2)))) True
       = Inr \<lparr>name = ''bin'', tris = [xy_triangle z_normal]\<rparr>"
proof -
  let ?m = "\<lparr>name = ''w'', tris = [xy_triangle z_normal]\<rparr>"
  have ser: "Binary_serialize True (sink_with_room 134) ?m ''bin'' 2
               = (fst (Binary_serialize True (sink_with_room 134) ?m ''bin'' 2), True)"
    by (rule serialize_succeeds) simp
  have e: "os_data (sink_with_room 134) = []" by (simp add: sink_with_room_def)
  have l: "length (tris ?m) < 2 ^ 32" by simp
  have nz: "\<not> normal_missing (normal (xy_triangle z_normal))"
    using normal_missing_z by (simp add: xy_triangle_def)
  from binary_roundtrip [OF ser e l, of False True] ser e nz show ?thesis
    by (simp add: header_name_padded)
qed

section \<open>The normals that the ASCII serializer prints\<close>

lemma foldl_append_concat: "foldl (\<lambda>out t. out @ f t) init ts = init @ concat (map f ts)"
  by (induction ts arbitrary: init) simp_all

lemma replicate_5: "replicate 5 x = [x, x, x, x, x]"
  by (simp add: numeral_eq_Suc)

lemma format_fixed_zero: "format_fixed 6 0 = ''0.000000''"
  by (simp add: format_fixed_def round_half_even_def show_nat_digit char_of_digit replicate_5
        f_sign_def f_mag_def is_nan_def is_inf_def mag_int_def Let_def)

lemma format_fixed_one: "format_fixed 6 f_one = ''1.000000''"
  by (simp add: format_fixed_def round_half_even_def show_nat_digit char_of_digit f_one_def
        replicate_5 f_sign_def f_mag_def is_nan_def is_inf_def mag_int_def Let_def)

lemma emitted_normal_zero_Triangle: "emitted_normal zero_Triangle = zero_Vec3"
  using normal_missing_zero
  by (simp add: emitted_normal_def face_normal_zero_Triangle) (simp add: zero_Triangle_def)

text \<open>
  C3, as stated, fails on the mesh whose single triangle has the zero normal and three
  vertices at the origin: the sum of the absolute values of the normal is below
  \<open>10\<^sup>-\<^sup>2\<^sup>0\<close>, the face normal is computed, and it is the zero vector again (the cross
  product has length zero, so nothing is divided); the facet is printed with three zero
  components.
\<close>

theorem ASCII_serialize_zero_normal_counterexample:
  "normal_missing (normal zero_Triangle)
   \<and> ASCII_serialize \<lparr>name = ''d'', tris = [zero_Triangle]\<rparr> 6
       = Some (''solid d'' @ [CHR 0x0A] @
               ''  facet normal 0.000000 0.000000 0.000000'' @ [CHR 0x0A] @
               ''    outer loop'' @ [CHR 0x0A] @
               ''      vertex 0.000000 0.000000 0.000000'' @ [CHR 0x0A] @
               ''      vertex 0.000000 0.000000 0.000000'' @ [CHR 0x0A] @
               ''      vertex 0.000000 0.000000 0.000000'' @ [CHR 0x0A] @
               ''    endloop'' @ [CHR 0x0A] @
               ''  endfacet'' @ [CHR 0x0A] @
               ''endsolid d'' @ [CHR 0x0A])"
proof -
  have n: "normal_missing (normal zero_Triangle)"
    using normal_missing_zero by (simp add: zero_Triangle_def)
  have v: "v0 zero_Triangle = zero_Vec3" "v1 zero_Triangle = zero_Vec3"
    "v2 zero_Triangle = zero_Vec3"
    by (simp_all add: zero_Triangle_def)
  have f: "fmt3 6 zero_Vec3 = ''0.000000 0.000000 0.000000''"
    by (simp add: fmt3_def zero_Vec3_def format_fixed_zero)
  have "facet_text 6 zero_Triangle
          = ''  facet normal 0.000000 0.000000 0.000000'' @ [CHR 0x0A] @
            ''    outer loop'' @ [CHR 0x0A] @
            ''      vertex 0.000000 0.000000 0.000000'' @ [CHR 0x0A] @
            ''      vertex 0.000000 0.000000 0.000000'' @ [CHR 0x0A] @
            ''      vertex 0.000000 0.000000 0.000000'' @ [CHR 0x0A] @
            ''    endloop'' @ [CHR 0x0A] @
            ''  endfacet'' @ [CHR 0x0A]"
    by (simp add: facet_text_def emitted_normal_zero_Triangle v f)
  then show ?thesis
    using n by (simp add: ASCII_serialize_def)
qed

text \<open>
  C3, amended. For every mesh and every precision that is not negative, the ASCII
  serializer returns the \<open>solid\<close> line, one block per triangle in order, and the
  \<open>endsolid\<close> line; the \<open>facet normal\<close> line of a triangle carries the computed face
  normal when the absolute values of the stored normal sum to less than \<open>10\<^sup>-\<^sup>2\<^sup>0\<close>, and
  the stored normal otherwise. (The face normal is itself the zero vector when the cross
  product of the edges has length zero.)
\<close>

theorem ASCII_serialize_normals:
  assumes "0 \<le> float_precision"
  shows "ASCII_serialize m float_precision =
     Some (''solid '' @ name m @ [CHR 0x0A] @
           concat (map (\<lambda>t.
             ''  facet normal '' @
               fmt3 (nat float_precision)
                 (if normal_missing (normal t) then face_normal t else normal t) @ [CHR 0x0A] @
             ''    outer loop'' @ [CHR 0x0A] @
             ''      vertex '' @ fmt3 (nat float_precision) (v0 t) @ [CHR 0x0A] @
             ''      vertex '' @ fmt3 (nat float_precision) (v1 t) @ [CHR 0x0A] @
             ''      vertex '' @ fmt3 (nat float_precision) (v2 t) @ [CHR 0x0A] @
             ''    endloop'' @ [CHR 0x0A] @
             ''  endfacet'' @ [CHR 0x0A]) (tris m)) @
           ''endsolid '' @ name m @ [CHR 0x0A])"
proof -
  have "facet_text (nat float_precision) =
          (\<lambda>t. ''  facet normal '' @
               fmt3 (nat float_precision)
                 (if normal_missing (normal t) then face_normal t else normal t) @ [CHR 0x0A] @
             ''    outer loop'' @ [CHR 0x0A] @
             ''      vertex '' @ fmt3 (nat float_precision) (v0 t) @ [CHR 0x0A] @
             ''      vertex '' @ fmt3 (nat float_precision) (v1 t) @ [CHR 0x0A] @
             ''      vertex '' @ fmt3 (nat float_precision) (v2 t) @ [CHR 0x0A] @
             ''    endloop'' @ [CHR 0x0A] @
             ''  endfacet'' @ [CHR 0x0A])"
    by (rule ext) (simp add: facet_text_def emitted_normal_def)
  then show ?thesis
    using assms by (simp add: ASCII_serialize_def foldl_append_concat)
qed

theorem ASCII_serialize_normals_witness:
  "(0::int) \<le> 6
   \<and> normal_missing (normal (xy_triangle zero_Vec3))
   \<and> ASCII_serialize \<lparr>name = ''nfix'', tris = [xy_triangle zero_Vec3]\<rparr> 6
       = Some (''solid nfix'' @ [CHR 0x0A] @
               ''  facet normal 0.000000 0.000000 1.000000'' @ [CHR 0x0A] @
               ''    outer loop'' @ [CHR 0x0A] @
               ''      vertex 0.000000 0.000000 0.000000'' @ [CHR 0x0A] @
               ''      vertex 1.000000 0.000000 0.000000'' @ [CHR 0x0A] @
               ''      vertex 0.000000 1.000000 0.000000'' @ [CHR 0x0A] @
               ''    endloop'' @ [CHR 0x0A] @
               ''  endfacet'' @ [CHR 0x0A] @
               ''endsolid nfix'' @ [CHR 0x0A])"
proof -
  have p: "(0::int) \<le> 6" by simp
  have n: "normal_missing (normal (xy_triangle zero_Vec3))"
    using normal_missing_zero by (simp add: xy_triangle_def)
  have f: "fmt3 6 (face_normal (xy_triangle zero_Vec3)) = ''0.000000 0.000000 1.000000''"
    by (simp add: face_normal_xy_triangle fmt3_def z_normal_def format_fixed_zero format_fixed_one)
  have v: "fmt3 6 (v0 (xy_triangle zero_Vec3)) = ''0.000000 0.000000 0.000000''"
    "fmt3 6 (v1 (xy_triangle zero_Vec3)) = ''1.000000 0.000000 0.000000''"
    "fmt3 6 (v2 (xy_triangle zero_Vec3)) = ''0.000000 1.000000 0.000000''"
    by (simp_all add: xy_triangle_def fmt3_def format_fixed_zero format_fixed_one)
  from ASCII_serialize_normals [OF p, of "\<lparr>name = ''nfix'', tris = [xy_triangle zero_Vec3]\<rparr>"]
  show ?thesis
    using n by (simp add: f v)
qed

section \<open>Empty and blank ASCII input\<close>

text \<open>
  C9. An ASCII input that is empty or consists of white space only (blanks, tabs, line
  breaks) is parsed with success: the result is the mesh with the empty name and no
  triangle. No line of it has a token, so the test for the leading \<open>solid\<close> is never
  reached.
\<close>

theorem ASCII_parse_blank:
  assumes "\<forall>c \<in> set text. c_isspace c"
  shows "ASCII_parse text compute_missing_normals = Inr \<lparr>name = [], tris = []\<rparr>"
proof -
  have "trim_sv l = []" if "l \<in> set (split_lines text)" for l
  proof -
    from that have "l \<in> set (split_nl [] text)"
      by (simp add: split_lines_def split: if_splits)
    from split_nl_chars [OF this] assms show ?thesis
      by (intro trim_sv_blank) auto
  qed
  then have "line_loop compute_missing_normals init_pstate (split_lines text)
               = Continue (init_pstate\<lparr>line_no := line_no init_pstate + length (split_lines text)\<rparr>)"
    by (intro loop_blank) simp
  then show ?thesis
    by (simp add: ASCII_parse_def after_loop_def init_pstate_def)
qed

theorem ASCII_parse_blank_witness:
  "list_all c_isspace ''  \<newline>\<newline>   ''
   \<and> ASCII_parse ''  \<newline>\<newline>   '' True = Inr \<lparr>name = [], tris = []\<rparr>
   \<and> ASCII_parse [] True = Inr \<lparr>name = [], tris = []\<rparr>"
proof -
  have h: "\<forall>c \<in> set ''  \<newline>\<newline>   ''. c_isspace c"
    by (simp add: c_isspace_def)
  from ASCII_parse_blank [OF h, of True] ASCII_parse_blank [of "[]" True] h show ?thesis
    by (simp add: list_all_iff)
qed


section \<open>The endsolid line\<close>

text \<open>
  C10. Let the lines \<open>pre\<close> of an ASCII input, among them a \<open>solid\<close> line, be accepted by
  the line loop, which is then in state \<open>s\<close>, whatever its phase: idle, or inside a facet
  or a loop that is not terminated. If the next line starts with \<open>endsolid\<close> (in any
  case), parsing ends there with success, whatever follows, and returns the mesh of \<open>s\<close>;
  the facet being read is not part of it: the mesh has exactly one triangle for each
  \<open>endfacet\<close> line among \<open>pre\<close>.
\<close>

theorem ASCII_parse_endsolid:
  assumes "split_lines text = pre @ l # rest"
    and "line_loop compute_missing_normals init_pstate pre = Continue s"
    and "\<exists>l0 \<in> set pre. first_token_is ''solid'' l0"
    and "first_token_is ''endsolid'' l"
  shows "ASCII_parse text compute_missing_normals = Inr (mesh s)
         \<and> length (tris (mesh s)) = length (filter (first_token_is ''endfacet'') pre)"
proof -
  from loop_in_solid [OF assms(2)] assms(3) have ins: "in_solid s" by simp
  from parse_line_endsolid [OF ins assms(4)]
  have "line_loop compute_missing_normals init_pstate (pre @ l # rest)
          = Break (s\<lparr>line_no := line_no s + 1, in_solid := False\<rparr>)"
    by (simp add: line_loop_append assms(2))
  then have "ASCII_parse text compute_missing_normals = Inr (mesh s)"
    by (simp add: ASCII_parse_def assms(1) after_loop_def)
  moreover from loop_tris [OF assms(2)]
  have "length (tris (mesh s)) = length (filter (first_token_is ''endfacet'') pre)"
    by (simp add: init_pstate_def)
  ultimately show ?thesis by simp
qed

theorem ASCII_parse_endsolid_witness:
  "split_lines ''solid a\<newline>facet normal 0 0 1\<newline>outer loop\<newline>vertex 0 0 0\<newline>endsolid\<newline>junk''
     = [''solid a'', ''facet normal 0 0 1'', ''outer loop'', ''vertex 0 0 0'']
       @ ''endsolid'' # [''junk'']
   \<and> first_token_is ''solid'' ''solid a''
   \<and> first_token_is ''endsolid'' ''endsolid''
   \<and> ASCII_parse ''solid a\<newline>facet normal 0 0 1\<newline>outer loop\<newline>vertex 0 0 0\<newline>endsolid\<newline>junk'' True
       = Inr \<lparr>name = ''a'', tris = []\<rparr>"
proof -
  let ?pre = "[''solid a'', ''facet normal 0 0 1'', ''outer loop'', ''vertex 0 0 0'']"
  have sp: "split_lines ''solid a\<newline>facet normal 0 0 1\<newline>outer loop\<newline>vertex 0 0 0\<newline>endsolid\<newline>junk''
              = ?pre @ ''endsolid'' # [''junk'']"
    by (simp add: split_lines_def)
  have f1: "first_token_is ''solid'' ''solid a''" and f2: "first_token_is ''endsolid'' ''endsolid''"
    by (simp_all add: token_eval)
  have ex: "\<exists>l0 \<in> set ?pre. first_token_is ''solid'' l0"
    using f1 by simp
  obtain s where run: "line_loop True init_pstate ?pre = Continue s"
    and m: "mesh s = \<lparr>name = ''a'', tris = []\<rparr>" and ph: "phase s = have_v1"
    by (simp add: ascii_eval)
  from ASCII_parse_endsolid [OF sp run ex f2] sp f1 f2 m show ?thesis
    by simp
qed

section \<open>End of input without endsolid\<close>

text \<open>
  C7, as stated, fails on the input \<open>solid s\<close>, \<open>facet normal 0 0 1\<close>: it begins with a
  \<open>solid\<close> line, has no \<open>endsolid\<close> line, and ends inside a facet; the parse fails, but
  its message \<open>Unexpected EOF: unterminated facet/loop\<close> starts with a capital letter
  and does not contain the text \<open>unexpected EOF\<close>.
\<close>

theorem ASCII_parse_eof_counterexample:
  "first_token_is ''solid'' ''solid s''
   \<and> \<not> first_token_is ''endsolid'' ''solid s''
   \<and> \<not> first_token_is ''endsolid'' ''facet normal 0 0 1''
   \<and> split_lines ''solid s\<newline>facet normal 0 0 1'' = [''solid s'', ''facet normal 0 0 1'']
   \<and> ASCII_parse ''solid s\<newline>facet normal 0 0 1'' True
       = Inl ''Unexpected EOF: unterminated facet/loop''
   \<and> \<not> sublist ''unexpected EOF'' ''Unexpected EOF: unterminated facet/loop''"
proof -
  have "\<not> sublist ''unexpected EOF'' ''Unexpected EOF: unterminated facet/loop''"
    by code_simp
  moreover have "ASCII_parse ''solid s\<newline>facet normal 0 0 1'' True
                   = Inl ''Unexpected EOF: unterminated facet/loop''"
    by (simp add: ascii_eval)
  moreover have "first_token_is ''solid'' ''solid s''"
    "\<not> first_token_is ''endsolid'' ''solid s''"
    "\<not> first_token_is ''endsolid'' ''facet normal 0 0 1''"
    by (simp_all add: token_eval)
  moreover have "split_lines ''solid s\<newline>facet normal 0 0 1'' = [''solid s'', ''facet normal 0 0 1'']"
    by (simp add: split_lines_def)
  ultimately show ?thesis by blast
qed

text \<open>
  C7, amended. Let an ASCII input have a \<open>solid\<close> line, and let the line loop run to the
  end of the input (every line is accepted and none is an \<open>endsolid\<close> line), where its
  state is \<open>s\<close>. Then the parse succeeds, returning the mesh read so far, if and only if
  the phase of \<open>s\<close> is idle; otherwise it fails with the error \<open>Unexpected EOF:
  unterminated facet/loop\<close>.
\<close>

theorem ASCII_parse_eof:
  assumes "line_loop compute_missing_normals init_pstate (split_lines text) = Continue s"
    and "\<exists>l \<in> set (split_lines text). first_token_is ''solid'' l"
  shows "ASCII_parse text compute_missing_normals
           = (if phase s = idle then Inr (mesh s)
              else Inl ''Unexpected EOF: unterminated facet/loop'')"
proof -
  from loop_in_solid [OF assms(1)] assms(2) have "in_solid s" by simp
  then show ?thesis
    by (simp add: ASCII_parse_def assms(1) after_loop_def)
qed

theorem ASCII_parse_eof_witness:
  "first_token_is ''solid'' ''solid s''
   \<and> ASCII_parse ''solid s\<newline>facet normal 0 0 1'' True
       = Inl ''Unexpected EOF: unterminated facet/loop''
   \<and> ASCII_parse ''solid s\<newline>'' True = Inr \<lparr>name = ''s'', tris = []\<rparr>"
proof -
  have f: "first_token_is ''solid'' ''solid s''"
    by (simp add: token_eval)
  have sp1: "split_lines ''solid s\<newline>facet normal 0 0 1'' = [''solid s'', ''facet normal 0 0 1'']"
    and sp2: "split_lines ''solid s\<newline>'' = [''solid s'', []]"
    by (simp_all add: split_lines_def)
  obtain s1 where r1: "line_loop True init_pstate (split_lines ''solid s\<newline>facet normal 0 0 1'')
                         = Continue s1" and p1: "phase s1 = have_facet"
    by (simp add: sp1 ascii_eval)
  obtain s2 where r2: "line_loop True init_pstate (split_lines ''solid s\<newline>'') = Continue s2"
    and p2: "phase s2 = idle" and m2: "mesh s2 = \<lparr>name = ''s'', tris = []\<rparr>"
    by (simp add: sp2 ascii_eval)
  have e1: "\<exists>l \<in> set (split_lines ''solid s\<newline>facet normal 0 0 1''). first_token_is ''solid'' l"
    using f by (simp add: sp1)
  have e2: "\<exists>l \<in> set (split_lines ''solid s\<newline>''). first_token_is ''solid'' l"
    using f by (simp add: sp2)
  from ASCII_parse_eof [OF r1 e1] ASCII_parse_eof [OF r2 e2] f p1 p2 m2 show ?thesis
    by simp
qed

section \<open>The endloop line\<close>

text \<open>
  The \<open>endloop\<close> branch tests the counter \<open>vertex_count\<close> and nothing else. An
  \<open>outer loop\<close> line sets the counter to zero and a \<open>vertex\<close> line adds one; no other line
  changes it, so after accepted lines \<open>pre\<close> the counter is the number of \<open>vertex\<close> lines
  since the most recent \<open>outer loop\<close> line. An \<open>endloop\<close> line that follows \<open>pre\<close> is
  accepted if and only if that number is 3. When it is 2 the parse fails with
  \<open>Line n: 'endloop' before three vertices\<close>, where \<open>n\<close> is the number of the \<open>endloop\<close>
  line.
\<close>

lemma endloop_branch:
  assumes "split_lines text = pre @ l # rest"
    and "line_loop compute_missing_normals init_pstate pre = Continue s"
    and "first_token_is ''endloop'' l"
  shows "((\<exists>s'. parse_line compute_missing_normals s l = Continue s')
            = (vertex_lines_since_outer pre = 3))
    \<and> (vertex_lines_since_outer pre = 2 \<longrightarrow>
          ASCII_parse text compute_missing_normals
            = Inl (''Line '' @ show_nat (length pre + 1) @ '': '' @ [apos] @ ''endloop'' @ [apos]
                   @ '' before three vertices'')
          \<and> sublist ''three vertices''
               (''Line '' @ show_nat (length pre + 1) @ '': '' @ [apos] @ ''endloop'' @ [apos]
                @ '' before three vertices''))"
proof -
  have vc: "vertex_count s = vertex_lines_since_outer pre"
    using assms(2) by (rule loop_vertex_count)
  have ln: "line_no s = length pre"
    using loop_line_no [OF assms(2)] by (simp add: init_pstate_def)
  have inside: "in_solid s" if "vertex_lines_since_outer pre \<noteq> 0"
    using loop_outside [OF assms(2)] that vc by auto
  have accepted: "(\<exists>s'. parse_line compute_missing_normals s l = Continue s')
                    = (vertex_lines_since_outer pre = 3)"
  proof
    assume "\<exists>s'. parse_line compute_missing_normals s l = Continue s'"
    then obtain s' where c: "parse_line compute_missing_normals s l = Continue s'" ..
    from parse_line_needs_solid [OF c assms(3)] have "in_solid s" by simp
    from parse_line_endloop [OF this assms(3), of compute_missing_normals] c vc
    show "vertex_lines_since_outer pre = 3"
      by (simp split: if_splits)
  next
    assume 3: "vertex_lines_since_outer pre = 3"
    then have "in_solid s" by (intro inside) simp
    from parse_line_endloop [OF this assms(3), of compute_missing_normals] vc 3
    show "\<exists>s'. parse_line compute_missing_normals s l = Continue s'"
      by simp
  qed
  have early: "ASCII_parse text compute_missing_normals
                 = Inl (''Line '' @ show_nat (length pre + 1) @ '': '' @ [apos] @ ''endloop'' @ [apos]
                        @ '' before three vertices'')"
    if 2: "vertex_lines_since_outer pre = 2"
  proof -
    from 2 have "in_solid s" by (intro inside) simp
    from parse_line_endloop [OF this assms(3), of compute_missing_normals] vc 2 ln
    have "parse_line compute_missing_normals s l
            = Return_error (line_error (length pre + 1)
                              ([apos] @ ''endloop'' @ [apos] @ '' before three vertices''))"
      by simp
    then have "line_loop compute_missing_normals init_pstate (pre @ l # rest)
                 = Return_error (line_error (length pre + 1)
                                   ([apos] @ ''endloop'' @ [apos] @ '' before three vertices''))"
      by (simp add: line_loop_append assms(2))
    then show ?thesis
      by (simp add: ASCII_parse_def assms(1) line_error_def)
  qed
  have "sublist ''three vertices''
          ((''Line '' @ show_nat (length pre + 1) @ '': '' @ [apos] @ ''endloop'' @ [apos]
            @ '' before '') @ ''three vertices'' @ [])"
    by (rule sublist_appendI)
  then have sub: "sublist ''three vertices''
               (''Line '' @ show_nat (length pre + 1) @ '': '' @ [apos] @ ''endloop'' @ [apos]
                @ '' before three vertices'')"
    by simp
  from accepted early sub show ?thesis by blast
qed

text \<open>
  The input of the repository's test, an \<open>endloop\<close> after two vertices, fails at line 6.
\<close>

lemma endloop_after_two_vertices:
  "split_lines ''solid bad\<newline>facet normal 0 0 1\<newline>outer loop\<newline>vertex 0 0 0\<newline>vertex 1 0 0\<newline>endloop\<newline>endfacet\<newline>endsolid bad''
     = [''solid bad'', ''facet normal 0 0 1'', ''outer loop'', ''vertex 0 0 0'', ''vertex 1 0 0'']
       @ ''endloop'' # [''endfacet'', ''endsolid bad'']
   \<and> first_token_is ''endloop'' ''endloop''
   \<and> vertex_lines_since_outer
        [''solid bad'', ''facet normal 0 0 1'', ''outer loop'', ''vertex 0 0 0'', ''vertex 1 0 0''] = 2
   \<and> ASCII_parse ''solid bad\<newline>facet normal 0 0 1\<newline>outer loop\<newline>vertex 0 0 0\<newline>vertex 1 0 0\<newline>endloop\<newline>endfacet\<newline>endsolid bad'' True
       = Inl (''Line 6: '' @ [apos] @ ''endloop'' @ [apos] @ '' before three vertices'')"
proof -
  let ?pre = "[''solid bad'', ''facet normal 0 0 1'', ''outer loop'', ''vertex 0 0 0'', ''vertex 1 0 0'']"
  have sp: "split_lines ''solid bad\<newline>facet normal 0 0 1\<newline>outer loop\<newline>vertex 0 0 0\<newline>vertex 1 0 0\<newline>endloop\<newline>endfacet\<newline>endsolid bad''
              = ?pre @ ''endloop'' # [''endfacet'', ''endsolid bad'']"
    by (simp add: split_lines_def)
  have f: "first_token_is ''endloop'' ''endloop''"
    by (simp add: token_eval)
  have t: "first_token_is ''vertex'' ''vertex 1 0 0''" "first_token_is ''vertex'' ''vertex 0 0 0''"
    "\<not> first_token_is ''outer'' ''vertex 1 0 0''" "\<not> first_token_is ''outer'' ''vertex 0 0 0''"
    "first_token_is ''outer'' ''outer loop''"
    by (simp_all add: token_eval)
  have v: "vertex_lines_since_outer ?pre = 2"
    by (simp add: vertex_lines_since_outer_def t)
  obtain s where run: "line_loop True init_pstate ?pre = Continue s"
    by (simp add: ascii_eval)
  have n: "show_nat (length ?pre + 1) = ''6''"
    by (simp add: show_nat_digit char_of_digit)
  from endloop_branch [OF sp run f] sp f v n show ?thesis
    by simp
qed

text \<open>
  The same holds where no loop is open. With the next facet begun and its \<open>outer loop\<close>
  line still to come, the parser is in phase \<open>have_facet\<close> and the counter is the 3 of the
  facet before: an \<open>endloop\<close> line is accepted there, and the input parses to two
  triangles.
\<close>

lemma endloop_before_outer_loop:
  "line_loop True init_pstate (closed_facet_lines @ [''facet normal 0 0 1'']) = Continue next_facet_state
   \<and> parse_line True next_facet_state ''endloop'' = Continue (next_facet_state\<lparr>line_no := 10\<rparr>)
   \<and> ASCII_parse ''solid s\<newline>facet normal 0 0 1\<newline>outer loop\<newline>vertex 0 0 0\<newline>vertex 1 0 0\<newline>vertex 0 1 0\<newline>endloop\<newline>endfacet\<newline>facet normal 0 0 1\<newline>endloop\<newline>outer loop\<newline>vertex 0 0 0\<newline>vertex 1 0 0\<newline>vertex 0 1 0\<newline>endloop\<newline>endfacet\<newline>endsolid'' True
       = Inr \<lparr>name = ''s'', tris = [xy_triangle z_normal, xy_triangle z_normal]\<rparr>"
  by (simp add: ascii_eval closed_facet_lines_def next_facet_state_def xy_triangle_def
        zero_Triangle_def zero_Vec3_def normal_missing_z [unfolded z_normal_def] z_normal_def)

text \<open>
  C6. An \<open>endloop\<close> line is to be accepted only when exactly 3 vertices have been read in
  the current outer loop. The parser does not keep to this: \<open>vertex_count\<close>, declared as
  the vertices seen inside the current outer loop, is not set back when \<open>endfacet\<close> closes
  the facet, and the \<open>endloop\<close> branch does not test the phase, as the \<open>endfacet\<close> branch
  beside it does. In the input

  \<^verbatim>\<open>solid s / facet normal 0 0 1 / outer loop / vertex 0 0 0 / vertex 1 0 0 / vertex 0 1 0 /
  endloop / endfacet / endloop / endsolid\<close>

  (one line each) the first 8 lines are accepted and leave the parser in phase \<open>idle\<close>: the
  facet is closed, no outer loop is open and no vertex has been read since. Line 9 is an
  \<open>endloop\<close>; it is accepted with the counter still at 3, and the parse returns the mesh
  of one triangle instead of an error at line 9.
\<close>

theorem endloop_outside_loop_accepted:
  "split_lines ''solid s\<newline>facet normal 0 0 1\<newline>outer loop\<newline>vertex 0 0 0\<newline>vertex 1 0 0\<newline>vertex 0 1 0\<newline>endloop\<newline>endfacet\<newline>endloop\<newline>endsolid''
     = closed_facet_lines @ [''endloop'', ''endsolid'']
   \<and> line_loop True init_pstate closed_facet_lines = Continue closed_facet_state
   \<and> phase closed_facet_state = idle
   \<and> vertex_count closed_facet_state = 3
   \<and> line_loop True closed_facet_state [''endloop''] = Continue (closed_facet_state\<lparr>line_no := 9\<rparr>)
   \<and> ASCII_parse ''solid s\<newline>facet normal 0 0 1\<newline>outer loop\<newline>vertex 0 0 0\<newline>vertex 1 0 0\<newline>vertex 0 1 0\<newline>endloop\<newline>endfacet\<newline>endloop\<newline>endsolid'' True
       = Inr \<lparr>name = ''s'', tris = [xy_triangle z_normal]\<rparr>"
  by (simp add: ascii_eval closed_facet_lines_def closed_facet_state_def xy_triangle_def
        zero_Triangle_def zero_Vec3_def normal_missing_z [unfolded z_normal_def] z_normal_def)


section \<open>Completion of missing normals\<close>



section \<open>Normals stored as stated\<close>

text \<open>
  C5. With \<open>compute_missing_normals = false\<close> nothing is recomputed. ASCII: for a facet
  block, that is an accepted \<open>facet\<close> line, accepted lines without an \<open>endfacet\<close>
  line, and an accepted \<open>endfacet\<close> line, the parser appends the triangle as it was
  read, and its normal is the one stated on the \<open>facet\<close> line; so a stated normal
  \<open>(0, 0, 0)\<close> is stored as \<open>(0, 0, 0)\<close>. Binary: the triangles of the result are the
  decoded records, so a record whose normal is \<open>(0, 0, 0)\<close> gives a triangle with the
  normal \<open>(0, 0, 0)\<close>.
\<close>

theorem normals_verbatim:
  "(parse_line False s lf = Continue s1 \<and> first_token_is ''facet'' lf
      \<and> line_loop False s1 mid = Continue s2
      \<and> (\<forall>l \<in> set mid. \<not> first_token_is ''endfacet'' l)
      \<and> parse_line False s2 le = Continue s3 \<and> first_token_is ''endfacet'' le
    \<longrightarrow> three_floats_from (tokenize_ws (trim_sv lf)) 2 = Inr (normal (current s2))
        \<and> tris (mesh s3) = tris (mesh s) @ [current s2]
        \<and> (three_floats_from (tokenize_ws (trim_sv lf)) 2 = Inr zero_Vec3
             \<longrightarrow> normal (last (tris (mesh s3))) = zero_Vec3))
   \<and> (is_good st \<and> Binary_parse big st False = Inr m
    \<longrightarrow> tris m = map (\<lambda>i. decode_triangle big (record_at (drop 84 (avail st)) i))
                     [0..<count_field big (avail st)]
        \<and> (\<forall>i < length (tris m).
              normal (decode_triangle big (record_at (drop 84 (avail st)) i)) = zero_Vec3
              \<longrightarrow> normal (tris m ! i) = zero_Vec3))"
proof (intro conjI impI)
  assume h: "parse_line False s lf = Continue s1 \<and> first_token_is ''facet'' lf
      \<and> line_loop False s1 mid = Continue s2
      \<and> (\<forall>l \<in> set mid. \<not> first_token_is ''endfacet'' l)
      \<and> parse_line False s2 le = Continue s3 \<and> first_token_is ''endfacet'' le"
  then have b: "tris (mesh s3) = tris (mesh s) @ [complete_normal False (current s2)]
                \<and> three_floats_from (tokenize_ws (trim_sv lf)) 2 = Inr (normal (current s2))"
    by (intro facet_block [of False s lf s1 mid s2 le s3]) simp_all
  from b show stated: "three_floats_from (tokenize_ws (trim_sv lf)) 2 = Inr (normal (current s2))"
    by simp
  from b show stored: "tris (mesh s3) = tris (mesh s) @ [current s2]"
    by (simp add: complete_normal_def)
  assume "three_floats_from (tokenize_ws (trim_sv lf)) 2 = Inr zero_Vec3"
  with stated stored show "normal (last (tris (mesh s3))) = zero_Vec3"
    by simp
next
  assume "is_good st \<and> Binary_parse big st False = Inr m"
  then have "m = \<lparr>name = header_name (take 80 (avail st)),
            tris = map (\<lambda>i. complete_normal False
                              (decode_triangle big (record_at (drop 84 (avail st)) i)))
                     [0..<count_field big (avail st)]\<rparr>"
    using Binary_parse_Inr [of st big False m] by simp
  then have t: "tris m = map (\<lambda>i. decode_triangle big (record_at (drop 84 (avail st)) i))
                     [0..<count_field big (avail st)]"
    by (simp add: complete_normal_def)
  then show "tris m = map (\<lambda>i. decode_triangle big (record_at (drop 84 (avail st)) i))
                     [0..<count_field big (avail st)]" .
  from t show "\<forall>i < length (tris m).
              normal (decode_triangle big (record_at (drop 84 (avail st)) i)) = zero_Vec3
              \<longrightarrow> normal (tris m ! i) = zero_Vec3"
    by simp
qed

theorem normals_verbatim_witness:
  "parse_line False in_solid_state ''facet normal 0 0 0'' = Continue (state_after_facet False)
   \<and> first_token_is ''facet'' ''facet normal 0 0 0''
   \<and> three_floats_from (tokenize_ws (trim_sv ''facet normal 0 0 0'')) 2 = Inr zero_Vec3
   \<and> line_loop False (state_after_facet False) test_loop_lines = Continue (state_after_loop False)
   \<and> parse_line False (state_after_loop False) ''endfacet'' = Continue (state_after_endfacet False)
   \<and> first_token_is ''endfacet'' ''endfacet''
   \<and> tris (mesh (state_after_endfacet False)) = [xy_triangle zero_Vec3]
   \<and> normal (last (tris (mesh (state_after_endfacet False)))) = zero_Vec3
   \<and> is_good (istream_of zero_normal_file)
   \<and> Binary_parse False (istream_of zero_normal_file) False
       = Inr \<lparr>name = [], tris = [xy_triangle zero_Vec3]\<rparr>
   \<and> normal (decode_triangle False
                (record_at (drop 84 (avail (istream_of zero_normal_file))) 0)) = zero_Vec3"
proof -
  note nv = normals_verbatim
         [of in_solid_state "''facet normal 0 0 0''" "state_after_facet False" test_loop_lines
             "state_after_loop False" "''endfacet''" "state_after_endfacet False"
             "istream_of zero_normal_file" False "\<lparr>name = [], tris = [xy_triangle zero_Vec3]\<rparr>"]
  have nx: "normal (xy_triangle zero_Vec3) = zero_Vec3"
    by (simp add: xy_triangle_def)
  have bp: "Binary_parse False (istream_of zero_normal_file) False
              = Inr \<lparr>name = [], tris = [xy_triangle zero_Vec3]\<rparr>"
    by (simp add: zero_normal_file_parse complete_normal_def)
  have good: "is_good (istream_of zero_normal_file)"
    by (simp add: is_good_def istream_of_def)
  have r: "decode_triangle False (record_at (drop 84 (avail (istream_of zero_normal_file))) 0)
             = xy_triangle zero_Vec3"
    by (simp add: record_at_def avail_def istream_of_def zero_normal_file_def
        decode_encode_triangle)
  have cur: "current (state_after_loop False) = xy_triangle zero_Vec3"
    by (simp add: state_after_loop_eq)
  have t0: "tris (mesh in_solid_state) = []"
    by (simp add: in_solid_state_def init_pstate_def)
  have hyps: "parse_line False in_solid_state ''facet normal 0 0 0'' = Continue (state_after_facet False)
      \<and> first_token_is ''facet'' ''facet normal 0 0 0''
      \<and> line_loop False (state_after_facet False) test_loop_lines = Continue (state_after_loop False)
      \<and> (\<forall>l \<in> set test_loop_lines. \<not> first_token_is ''endfacet'' l)
      \<and> parse_line False (state_after_loop False) ''endfacet'' = Continue (state_after_endfacet False)
      \<and> first_token_is ''endfacet'' ''endfacet''"
    by (intro conjI test_facet_steps test_facet_tokens test_loop_no_endfacet)
  from nv [THEN conjunct1, THEN mp, OF hyps]
  have a: "three_floats_from (tokenize_ws (trim_sv ''facet normal 0 0 0'')) 2 = Inr zero_Vec3"
    and b: "tris (mesh (state_after_endfacet False)) = [xy_triangle zero_Vec3]"
    by (simp_all add: cur nx t0)
  from nv [THEN conjunct1, THEN mp, OF hyps] a
  have c: "normal (last (tris (mesh (state_after_endfacet False)))) = zero_Vec3"
    by blast
  from a b c hyps bp good r nx show ?thesis by simp
qed

end
